theory Spec2Isabelle
  imports Complex_Main "HOL-Library.Word" "HOL-Library.Log_Nat"
begin

unbundle bit_operations_syntax

section \<open>Single-precision arithmetic\<close>

text \<open>
  The sketch computes in the C++ type \<open>float\<close>, which is IEEE 754 binary32 on the
  Arduino targets: 24 significant bits, exponents from \<open>-126\<close> to \<open>127\<close>, gradual
  underflow, and every operation rounded to the nearest value, ties to the even
  significand. A finite value is kept as the rational number it denotes; the sign of
  a zero is not kept (\<open>-0.0\<close> and \<open>0.0\<close> compare equal in C++ and the sketch
  never divides by a computed zero).
\<close>

datatype float32 = Finite rat | PInf | NInf | NaN

text \<open>\<open>ilog2 x\<close> is the exponent \<open>e\<close> with \<open>2^e \<le> x < 2^(e+1)\<close>, for \<open>x > 0\<close>.\<close>

definition ilog2 :: "rat \<Rightarrow> int" where
  "ilog2 x = (let (a, b) = quotient_of x; d = bitlen a - bitlen b
              in if 2 powi d \<le> x then d else d - 1)"

definition round_half_even :: "rat \<Rightarrow> int" where
  "round_half_even x =
     (let f = \<lfloor>x\<rfloor>; d = x - of_int f
      in if d < 1 / 2 then f else if 1 / 2 < d then f + 1
         else if even f then f else f + 1)"

definition round32 :: "rat \<Rightarrow> float32" where
  "round32 x =
     (if x = 0 then Finite 0
      else let e = max (ilog2 \<bar>x\<bar>) (- 126);
               q = 2 powi (e - 23);
               r = of_int (round_half_even (x / q)) * q
           in if 2 powi 128 \<le> \<bar>r\<bar> then (if 0 < x then PInf else NInf) else Finite r)"

definition is_float32 :: "float32 \<Rightarrow> bool" where
  "is_float32 a = (case a of Finite x \<Rightarrow> round32 x = Finite x | _ \<Rightarrow> True)"

definition float_of_int :: "int \<Rightarrow> float32" where
  "float_of_int i = round32 (of_int i)"

fun fsign :: "float32 \<Rightarrow> int" where
  "fsign (Finite x) = (if 0 < x then 1 else if x < 0 then - 1 else 0)"
| "fsign PInf = 1"
| "fsign NInf = - 1"
| "fsign NaN = 0"

definition inf_of_sign :: "int \<Rightarrow> float32" where
  "inf_of_sign k = (if 0 < k then PInf else if k < 0 then NInf else NaN)"

fun fneg :: "float32 \<Rightarrow> float32" where
  "fneg (Finite x) = Finite (- x)"
| "fneg PInf = NInf"
| "fneg NInf = PInf"
| "fneg NaN = NaN"

fun fadd :: "float32 \<Rightarrow> float32 \<Rightarrow> float32" where
  "fadd (Finite x) (Finite y) = round32 (x + y)"
| "fadd NaN b = NaN"
| "fadd a NaN = NaN"
| "fadd PInf NInf = NaN"
| "fadd NInf PInf = NaN"
| "fadd PInf b = PInf"
| "fadd a PInf = PInf"
| "fadd NInf b = NInf"
| "fadd a NInf = NInf"

definition fsub :: "float32 \<Rightarrow> float32 \<Rightarrow> float32" where
  "fsub a b = fadd a (fneg b)"

fun fmul :: "float32 \<Rightarrow> float32 \<Rightarrow> float32" where
  "fmul (Finite x) (Finite y) = round32 (x * y)"
| "fmul NaN b = NaN"
| "fmul a NaN = NaN"
| "fmul a b = inf_of_sign (fsign a * fsign b)"

fun fdiv :: "float32 \<Rightarrow> float32 \<Rightarrow> float32" where
  "fdiv (Finite x) (Finite y) =
     (if y = 0 then inf_of_sign (fsign (Finite x)) else round32 (x / y))"
| "fdiv NaN b = NaN"
| "fdiv a NaN = NaN"
| "fdiv (Finite x) b = Finite 0"
| "fdiv a (Finite y) = inf_of_sign (fsign a * (if y < 0 then - 1 else 1))"
| "fdiv a b = NaN"

fun flt :: "float32 \<Rightarrow> float32 \<Rightarrow> bool" where
  "flt (Finite x) (Finite y) = (x < y)"
| "flt NaN b = False"
| "flt a NaN = False"
| "flt a NInf = False"
| "flt PInf b = False"
| "flt a b = True"

definition fgt :: "float32 \<Rightarrow> float32 \<Rightarrow> bool" where
  "fgt a b = flt b a"

section \<open>Defines\<close>

definition MAX_EMA_ORDER :: nat where
  "MAX_EMA_ORDER = 10"

definition EMA_DEFAULT_ORDER :: "8 word" where
  "EMA_DEFAULT_ORDER = 5"

definition EMA_DEFAULT_ALPHA :: float32 where
  "EMA_DEFAULT_ALPHA = round32 (1 / 2)"

section \<open>The class cEMAFilter\<close>

record cEMAFilter =
  filterData :: "float32 list"
  filtValue :: float32
  firstSample :: bool
  order :: "8 word"
  alpha :: float32

text \<open>
  \<open>filterData\<close> is an array of \<open>MAX_EMA_ORDER\<close> floats. The loops of \<open>reset\<close> and
  \<open>filter\<close> index it below \<open>order\<close>; the constructors and \<open>config\<close> keep
  \<open>order\<close> between 1 and \<open>MAX_EMA_ORDER\<close>, so no access leaves the array.
\<close>

definition cEMAFilter_ok :: "cEMAFilter \<Rightarrow> bool" where
  "cEMAFilter_ok this =
     (length (filterData this) = MAX_EMA_ORDER \<and> 0 < unat (order this)
      \<and> unat (order this) \<le> MAX_EMA_ORDER)"

text \<open>\<open>config\<close>: the parameters carry the names of the members in the source.\<close>

definition cEMAFilter_config :: "cEMAFilter \<Rightarrow> float32 \<Rightarrow> 8 word \<Rightarrow> cEMAFilter" where
  "cEMAFilter_config this alpha_p order_p =
     (if (0 < unat order_p \<and> unat order_p \<le> MAX_EMA_ORDER)
         \<and> (fgt alpha_p (float_of_int 0) \<and> flt alpha_p (float_of_int 1))
      then this\<lparr>order := order_p, alpha := alpha_p\<rparr>
      else this)"

text \<open>
  The constructors run on the storage of the object, \<open>mem\<close>: they leave
  \<open>filterData\<close> and \<open>filtValue\<close> as they find them.
\<close>

definition cEMAFilter_default :: "cEMAFilter \<Rightarrow> cEMAFilter" where
  "cEMAFilter_default mem =
     mem\<lparr>firstSample := True, order := EMA_DEFAULT_ORDER, alpha := EMA_DEFAULT_ALPHA\<rparr>"

text \<open>
  In the constructor with parameters, \<open>order = EMA_DEFAULT_ORDER\<close> and
  \<open>alpha = EMA_DEFAULT_ALPHA\<close> assign to the parameters, which hide the members of
  the same names; \<open>config\<close> then receives the overwritten parameters.
\<close>

definition cEMAFilter_param :: "cEMAFilter \<Rightarrow> float32 \<Rightarrow> 8 word \<Rightarrow> cEMAFilter" where
  "cEMAFilter_param mem alpha_p order_p =
     (let this = mem\<lparr>firstSample := True\<rparr>;
          order_p = EMA_DEFAULT_ORDER;
          alpha_p = EMA_DEFAULT_ALPHA
      in cEMAFilter_config this alpha_p order_p)"

function reset_loop :: "float32 list \<Rightarrow> nat \<Rightarrow> float32 \<Rightarrow> nat \<Rightarrow> float32 list" where
  "reset_loop fd n v i = (if i < n then reset_loop (fd[i := v]) n v (i + 1) else fd)"
  by pat_completeness auto
termination
  by (relation "measure (\<lambda>(fd, n, v, i). n - i)") auto

definition cEMAFilter_reset :: "cEMAFilter \<Rightarrow> float32 \<Rightarrow> cEMAFilter" where
  "cEMAFilter_reset this v =
     this\<lparr>filterData := reset_loop (filterData this) (unat (order this)) v 0\<rparr>"

function filter_loop ::
  "float32 list \<Rightarrow> nat \<Rightarrow> float32 \<Rightarrow> float32 \<Rightarrow> nat \<Rightarrow> float32 list \<times> float32" where
  "filter_loop fd n a v i =
     (if i < n
      then let x = fadd (fmul a (fd ! i)) (fmul (fsub (float_of_int 1) a) v)
           in filter_loop (fd[i := x]) n a x (i + 1)
      else (fd, v))"
  by pat_completeness auto
termination
  by (relation "measure (\<lambda>(fd, n, a, v, i). n - i)") auto

text \<open>\<open>filter\<close> returns the object after the call and the value returned.\<close>

definition cEMAFilter_filter :: "cEMAFilter \<Rightarrow> float32 \<Rightarrow> cEMAFilter \<times> float32" where
  "cEMAFilter_filter this v =
     (let this1 = (if firstSample this
                   then (cEMAFilter_reset this v)\<lparr>firstSample := False\<rparr>
                   else this);
          (fd, x) = filter_loop (filterData this1) (unat (order this1)) (alpha this1) v 0;
          this2 = this1\<lparr>filterData := fd, filtValue := x\<rparr>
      in (this2, filtValue this2))"

definition cEMAFilter_getValue :: "cEMAFilter \<Rightarrow> float32" where
  "cEMAFilter_getValue this = filtValue this"

section \<open>The I2C frame\<close>

text \<open>
  \<open>tI2CTable\<close> has only \<open>uint8_t\<close> members, so it has no padding and its members lie
  at the offsets of the source's comments; the union \<open>tI2CFrame\<close> lets the same 32
  bytes be read as \<open>I2CBuffer\<close>. A frame is its byte list, a member the slice at
  its offset.
\<close>

definition sizeof_tI2CTable :: nat where
  "sizeof_tI2CTable = 3 + 1 + 2 + 1 + 3 + 1 + 10 + 1 + 4 + 1 + 4 + 1"

definition I2CTable_flow :: "8 word list \<Rightarrow> 8 word list" where
  "I2CTable_flow buf = drop 0 buf"

definition I2CTable_temp :: "8 word list \<Rightarrow> 8 word list" where
  "I2CTable_temp buf = drop 4 buf"

definition I2CTable_range :: "8 word list \<Rightarrow> 8 word list" where
  "I2CTable_range buf = drop 7 buf"

definition I2CTable_serialNumber :: "8 word list \<Rightarrow> 8 word list" where
  "I2CTable_serialNumber buf = drop 11 buf"

definition I2CTable_version :: "8 word list \<Rightarrow> 8 word list" where
  "I2CTable_version buf = drop 22 buf"

definition I2CTable_fwChks :: "8 word list \<Rightarrow> 8 word list" where
  "I2CTable_fwChks buf = drop 27 buf"

section \<open>Objects as bytes\<close>

text \<open>
  \<open>memcpy\<close> writes the first \<open>len\<close> bytes of the source over the first \<open>len\<close>
  bytes of the destination object. The Arduino targets store integers with the least
  significant byte first.
\<close>

definition memcpy :: "8 word list \<Rightarrow> 8 word list \<Rightarrow> nat \<Rightarrow> 8 word list" where
  "memcpy dst src len = take len src @ drop len dst"

definition RebuildVarFromBuffer :: "8 word list \<Rightarrow> 8 word list \<Rightarrow> nat \<Rightarrow> 8 word list" where
  "RebuildVarFromBuffer ptOutVar ptBuffer len = memcpy ptOutVar ptBuffer len"

definition memset :: "8 word list \<Rightarrow> 8 word \<Rightarrow> nat \<Rightarrow> 8 word list" where
  "memset dst c len = replicate len c @ drop len dst"

definition bytes_of :: "nat \<Rightarrow> 'a::len word \<Rightarrow> 8 word list" where
  "bytes_of n w = map (\<lambda>i. ucast (drop_bit (8 * i) w)) [0..<n]"

fun le_nat :: "8 word list \<Rightarrow> nat" where
  "le_nat [] = 0"
| "le_nat (b # bs) = unat b + 256 * le_nat bs"

definition of_bytes :: "8 word list \<Rightarrow> 'a::len word" where
  "of_bytes bs = word_of_nat (le_nat bs)"

section \<open>Global variables\<close>

record globals =
  I2CFrame :: "8 word list"
  flow :: "32 word"
  temp :: "16 word"
  range_var :: "32 word"
  serialNumber :: "8 word list"
  version :: "8 word list"
  fwChks :: "32 word"
  flowValue :: float32
  FlowFilter :: cEMAFilter
  loopCounter :: "32 word"
  comError :: "32 word"
  error :: "32 word"
  success :: "32 word"

text \<open>
  The globals at the first call of \<open>loop\<close>: static storage is zero-initialized, then
  the default constructor of \<open>FlowFilter\<close> runs.
\<close>

definition zero_cEMAFilter :: cEMAFilter where
  "zero_cEMAFilter =
     \<lparr>filterData = replicate MAX_EMA_ORDER (Finite 0), filtValue = Finite 0,
      firstSample = False, order = 0, alpha = Finite 0\<rparr>"

definition initial_globals :: globals where
  "initial_globals =
     \<lparr>I2CFrame = replicate sizeof_tI2CTable 0, flow = 0, temp = 0, range_var = 0,
      serialNumber = replicate 10 0, version = replicate 4 0, fwChks = 0,
      flowValue = Finite 0, FlowFilter = cEMAFilter_default zero_cEMAFilter,
      loopCounter = 0, comError = 0, error = 0, success = 0\<rparr>"

text \<open>The sizes that the types of the source fix.\<close>

definition globals_ok :: "globals \<Rightarrow> bool" where
  "globals_ok s =
     (length (I2CFrame s) = sizeof_tI2CTable \<and> length (serialNumber s) = 10
      \<and> length (version s) = 4 \<and> cEMAFilter_ok (FlowFilter s))"

section \<open>masterRead\<close>

text \<open>
  \<open>wire\<close> is what \<open>Wire.requestFrom\<close> has received, \<open>Wire.available()\<close> says
  whether it is non-empty and \<open>Wire.read()\<close> takes its first byte. A byte is read only
  while \<open>rxLen < len\<close>: with more than \<open>len\<close> bytes waiting nothing is taken any
  more and the \<open>while\<close> never ends, which is the result \<open>None\<close>.
\<close>

fun masterRead_loop ::
  "8 word list \<Rightarrow> 8 word list \<Rightarrow> nat \<Rightarrow> nat \<Rightarrow> nat \<Rightarrow> (8 word list \<times> nat) option" where
  "masterRead_loop [] buf p rxLen len = Some (buf, rxLen)"
| "masterRead_loop (b # wire) buf p rxLen len =
     (if rxLen < len then masterRead_loop wire (buf[p := b]) (p + 1) (rxLen + 1) len
      else None)"

definition masterRead ::
  "8 word list \<Rightarrow> 8 word list \<Rightarrow> nat \<Rightarrow> (8 word list \<times> bool) option" where
  "masterRead wire ptBuffer len =
     (case masterRead_loop wire ptBuffer 0 0 len of
        None \<Rightarrow> None
      | Some (buf, rxLen) \<Rightarrow> Some (buf, len = rxLen))"

section \<open>loop\<close>

function chks_loop :: "8 word list \<Rightarrow> 8 word \<Rightarrow> nat \<Rightarrow> 8 word" where
  "chks_loop buf chks i =
     (if i < sizeof_tI2CTable then chks_loop buf (chks + buf ! i) (i + 1) else chks)"
  by pat_completeness auto
termination
  by (relation "measure (\<lambda>(buf, chks, i). sizeof_tI2CTable - i)") auto

text \<open>
  Lines 246 to 260: the counter of good frames, then each variable cleared (lines 247
  to 252) and rebuilt from its member of the frame (lines 255 to 260). The
  \<open>int32_t\<close>, \<open>int16_t\<close> and \<open>uint32_t\<close> variables are written through their
  bytes.
\<close>

definition rebuild_vars :: "globals \<Rightarrow> globals" where
  "rebuild_vars s =
     s\<lparr>success := success s + 1,
       flow := of_bytes (RebuildVarFromBuffer (bytes_of 4 (0 :: 32 word))
                           (I2CTable_flow (I2CFrame s)) 3),
       temp := of_bytes (RebuildVarFromBuffer (bytes_of 2 (0 :: 16 word))
                           (I2CTable_temp (I2CFrame s)) 2),
       range_var := of_bytes (RebuildVarFromBuffer (bytes_of 4 (0 :: 32 word))
                                (I2CTable_range (I2CFrame s)) 3),
       serialNumber := RebuildVarFromBuffer (memset (serialNumber s) 0 10)
                         (I2CTable_serialNumber (I2CFrame s)) 10,
       version := RebuildVarFromBuffer (memset (version s) 0 4)
                    (I2CTable_version (I2CFrame s)) 4,
       fwChks := of_bytes (RebuildVarFromBuffer (bytes_of 4 (0 :: 32 word))
                             (I2CTable_fwChks (I2CFrame s)) 4)\<rparr>"

text \<open>
  Lines 262 to 272. \<open>flow\<close> and \<open>range\<close> are \<open>int32_t\<close>, so \<open>(float)\<close> converts
  their signed value.
\<close>

definition convert_flow :: "globals \<Rightarrow> globals" where
  "convert_flow s =
     (if flow s AND 0x800000 \<noteq> 0
      then let s = s\<lparr>flow := NOT (flow s) + 1\<rparr>;
               s = s\<lparr>flow := flow s AND 0x7FFFFF\<rparr>
           in s\<lparr>flowValue :=
                  fdiv (fneg (fmul (float_of_int (sint (flow s)))
                                   (float_of_int (sint (range_var s)))))
                       (float_of_int 0x7FFFFF)\<rparr>
      else s\<lparr>flowValue :=
                fdiv (fmul (float_of_int (sint (flow s))) (float_of_int (sint (range_var s))))
                     (float_of_int 0x7FFFFF)\<rparr>)"

text \<open>Line 276.\<close>

definition apply_filter :: "globals \<Rightarrow> globals" where
  "apply_filter s = s\<lparr>FlowFilter := fst (cEMAFilter_filter (FlowFilter s) (flowValue s))\<rparr>"

text \<open>Lines 233 to 277: what \<open>loop\<close> does with a frame that \<open>masterRead\<close> delivered.\<close>

definition process_frame :: "globals \<Rightarrow> globals" where
  "process_frame s =
     (let chks = chks_loop (I2CFrame s) 0 0
      in if chks \<noteq> 0 then s\<lparr>error := error s + 1\<rparr>
         else apply_filter (convert_flow (rebuild_vars s)))"

text \<open>
  \<open>loop\<close>, with the bytes that the sensor sends in this call as its second argument.
  The report of lines 216 to 228 is left out: it reads the globals and writes to the
  serial port, to \<open>bufferMessage\<close> and to a local buffer, none of which are part of
  \<open>globals\<close>; \<open>delay\<close> changes no variable either.
\<close>

definition loop :: "globals \<Rightarrow> 8 word list \<Rightarrow> globals option" where
  "loop s wire =
     (case masterRead wire (I2CFrame s) sizeof_tI2CTable of
        None \<Rightarrow> None
      | Some (buf, ok) \<Rightarrow>
          let s = s\<lparr>I2CFrame := buf\<rparr>;
              s = (if ok then process_frame s else s\<lparr>comError := comError s + 1\<rparr>)
          in Some (s\<lparr>loopCounter := loopCounter s + 1\<rparr>))"

section \<open>The range that config accepts\<close>

text \<open>The specification's condition: \<open>alpha\<close> in (0,1) and \<open>order\<close> in [1, MAX_EMA_ORDER].\<close>

definition config_in_range :: "float32 \<Rightarrow> 8 word \<Rightarrow> bool" where
  "config_in_range a n =
     ((case a of Finite x \<Rightarrow> 0 < x \<and> x < 1 | _ \<Rightarrow> False)
      \<and> 1 \<le> unat n \<and> unat n \<le> MAX_EMA_ORDER)"

section \<open>Example frames, variables and filters\<close>

text \<open>
  A frame whose 32 bytes sum to 256 although the checksum byte of \<open>flow\<close> (offset 3)
  does not balance the \<open>flow\<close> bytes, and a frame whose bytes sum to 1.
\<close>

definition frame_balanced_as_a_whole :: "8 word list" where
  "frame_balanced_as_a_whole = [1, 0, 0, 0, 255, 0, 0] @ replicate 25 0"

definition frame_unbalanced :: "8 word list" where
  "frame_unbalanced = [1, 0, 0, 0] @ replicate 28 0"

text \<open>
  A frame with the \<open>flow\<close> bytes \<open>0x10, 0x20, 0x00\<close>, the serial number 1 to 10, and
  a last byte that makes the 32 bytes sum to a multiple of 256.
\<close>

definition frame_flow_0x2010 :: "8 word list" where
  "frame_flow_0x2010 =
     [0x10, 0x20, 0x00, 0xD0, 0, 0, 0, 0, 0, 0, 0, 1, 2, 3, 4, 5, 6, 7, 8, 9, 10]
     @ replicate 10 0 @ [0xC9]"

text \<open>Decoded values of \<open>flow\<close> and \<open>range\<close> as they stand before line 262.\<close>

definition globals_flow_0x800001 :: globals where
  "globals_flow_0x800001 = initial_globals\<lparr>flow := 0x800001, range_var := 1000\<rparr>"

definition globals_flow_1 :: globals where
  "globals_flow_1 = initial_globals\<lparr>flow := 1, range_var := 1000\<rparr>"

definition globals_flow_0 :: globals where
  "globals_flow_0 = initial_globals\<lparr>flow := 0, range_var := 1000\<rparr>"

definition globals_range_0 :: globals where
  "globals_range_0 = initial_globals\<lparr>flow := 0x800001, range_var := 0\<rparr>"

text \<open>
  A frame with the \<open>flow\<close> bytes \<open>0x00, 0x00, 0x01\<close> and the \<open>range\<close> bytes
  \<open>0xE8, 0x03, 0x00\<close>, each followed by the checksum byte that balances it.
\<close>

definition frame_flow_0x010000 :: "8 word list" where
  "frame_flow_0x010000 =
     [0x00, 0x00, 0x01, 0xFF, 0, 0, 0, 0xE8, 0x03, 0x00, 0x15] @ replicate 21 0"

text \<open>
  The literal \<open>0.1f\<close>, a new filter configured with it and order 1, and the default
  filter after it has filtered one sample.
\<close>

definition alpha_tenth :: float32 where
  "alpha_tenth = round32 (1 / 10)"

definition filter_tenth :: cEMAFilter where
  "filter_tenth = cEMAFilter_config (cEMAFilter_default zero_cEMAFilter) alpha_tenth 1"

definition filter_after_one_sample :: cEMAFilter where
  "filter_after_one_sample
     = fst (cEMAFilter_filter (cEMAFilter_default zero_cEMAFilter) (Finite 5))"

declare chks_loop.simps [simp del] reset_loop.simps [simp del] filter_loop.simps [simp del]

section \<open>Rounding to single precision\<close>

lemma bitlen_powi_bounds:
  assumes "0 < (a::int)"
  shows "(2::rat) powi (bitlen a - 1) \<le> of_int a" and "of_int a < (2::rat) powi (bitlen a)"
proof -
  from bitlen_bounds [OF assms]
  have lo: "2 ^ nat (bitlen a - 1) \<le> a" and hi: "a < 2 ^ nat (bitlen a)" by simp_all
  have pos: "1 \<le> bitlen a" using assms by (simp add: bitlen_alt_def)
  have "(of_int (2 ^ nat (bitlen a - 1)) :: rat) \<le> of_int a" using lo by (simp only: of_int_le_iff)
  then show "(2::rat) powi (bitlen a - 1) \<le> of_int a" using pos by (simp add: power_int_def)
  have "(of_int a :: rat) < of_int (2 ^ nat (bitlen a))" using hi by (simp only: of_int_less_iff)
  then show "of_int a < (2::rat) powi (bitlen a)" using pos by (simp add: power_int_def)
qed

lemma ilog2_bounds:
  assumes "0 < x"
  shows "2 powi (ilog2 x) \<le> x" and "x < 2 powi (ilog2 x + 1)"
proof -
  obtain a b where q: "quotient_of x = (a, b)" by (cases "quotient_of x")
  then have b: "0 < b" and x: "x = of_int a / of_int b"
    by (simp_all add: quotient_of_denom_pos quotient_of_div)
  from assms x b have a: "0 < a" by (simp add: zero_less_divide_iff)
  let ?d = "bitlen a - bitlen b"
  note A = bitlen_powi_bounds [OF a] and B = bitlen_powi_bounds [OF b]
  have bpos: "(0::rat) < of_int b" using b by simp
  have "x < 2 powi (bitlen a) / 2 powi (bitlen b - 1)"
    unfolding x using A(2) B(1) bpos a
    by (intro frac_less) auto
  also have "\<dots> = 2 powi (bitlen a - (bitlen b - 1))"
    by (rule power_int_diff [symmetric]) simp
  also have "bitlen a - (bitlen b - 1) = ?d + 1" by simp
  finally have up: "x < 2 powi (?d + 1)" .
  have "2 powi (bitlen a - 1) / 2 powi (bitlen b) < x"
    unfolding x using A(1) B(2) bpos a
    by (intro frac_less2) auto
  moreover have "2 powi (bitlen a - 1) / (2::rat) powi (bitlen b) = 2 powi (bitlen a - 1 - bitlen b)"
    by (rule power_int_diff [symmetric]) simp
  moreover have "bitlen a - 1 - bitlen b = ?d - 1" by simp
  ultimately have lo: "2 powi (?d - 1) < x" by simp
  have e: "ilog2 x = (if 2 powi ?d \<le> x then ?d else ?d - 1)"
    by (simp add: ilog2_def q)
  show "2 powi (ilog2 x) \<le> x" using lo by (simp add: e less_imp_le)
  show "x < 2 powi (ilog2 x + 1)" using up by (simp add: e not_le)
qed


lemma pow2_less_cancel: "(2::rat) powi m < 2 powi n \<Longrightarrow> m < n"
  using power_int_increasing [of n m "2::rat"] by (cases "m < n") auto

lemma pow2_le_cancel: "(2::rat) powi m \<le> 2 powi n \<Longrightarrow> m \<le> n"
  using power_int_strict_increasing [of n m "2::rat"] by (cases "m \<le> n") auto

lemma round_half_even_of_int [simp]: "round_half_even (of_int k) = k"
  by (simp add: round_half_even_def)

lemma round_half_even_bounds: "\<lfloor>x\<rfloor> \<le> round_half_even x" "round_half_even x \<le> \<lceil>x\<rceil>"
  by (auto simp: round_half_even_def Let_def ceiling_altdef)

lemma round32_exact:
  assumes m: "\<bar>m\<bar> < 2 ^ 24" and k: "- 149 \<le> k" "k \<le> 104"
  shows "round32 (of_int m * 2 powi k) = Finite (of_int m * 2 powi k)"
proof (cases "m = 0")
  case True
  then show ?thesis by (simp add: round32_def)
next
  case False
  define x :: rat where "x = of_int m * 2 powi k"
  have x0: "x \<noteq> 0" using False by (simp add: x_def)
  have ax: "\<bar>x\<bar> = of_int \<bar>m\<bar> * 2 powi k" by (simp add: x_def abs_mult power_int_abs)
  have pos: "0 < \<bar>x\<bar>" using x0 by simp
  have "(of_int \<bar>m\<bar> :: rat) < of_int (2 ^ 24)" using m by (simp only: of_int_less_iff)
  then have "\<bar>x\<bar> < 2 powi 24 * 2 powi k" unfolding ax by (intro mult_strict_right_mono) simp_all
  also have "\<dots> = 2 powi (24 + k)" by (rule power_int_add [symmetric]) simp
  finally have up: "\<bar>x\<bar> < 2 powi (24 + k)" .
  define e where "e = max (ilog2 \<bar>x\<bar>) (- 126)"
  have "2 powi (ilog2 \<bar>x\<bar>) < (2::rat) powi (24 + k)"
    using ilog2_bounds(1) [OF pos] up by simp
  then have "ilog2 \<bar>x\<bar> < 24 + k" by (rule pow2_less_cancel)
  then have e: "e \<le> k + 23" using k by (simp add: e_def)
  have "(2::rat) powi k = 2 powi (k + 23 - e) * 2 powi (e - 23)"
    by (subst power_int_add [symmetric]) simp_all
  then have "x / 2 powi (e - 23) = of_int m * 2 powi (k + 23 - e)"
    by (simp add: x_def)
  also have "\<dots> = of_int (m * 2 ^ nat (k + 23 - e))"
    using e by (simp add: power_int_def)
  finally have q: "x / 2 powi (e - 23) = of_int (m * 2 ^ nat (k + 23 - e))" .
  have r: "of_int (round_half_even (x / 2 powi (e - 23))) * 2 powi (e - 23) = x"
    unfolding q round_half_even_of_int unfolding q [symmetric] by simp
  have "(2::rat) powi (24 + k) \<le> 2 powi 128" using k by (intro power_int_increasing) simp_all
  with up have "\<not> 2 powi 128 \<le> \<bar>x\<bar>" by simp
  then show ?thesis
    using x0 r unfolding x_def [symmetric] by (simp add: round32_def Let_def e_def [symmetric])
qed

lemma round32_finite:
  assumes "\<bar>x\<bar> < 2 powi 127"
  shows "\<exists>r. round32 x = Finite r"
proof (cases "x = 0")
  case True
  then show ?thesis by (simp add: round32_def)
next
  case False
  then have pos: "0 < \<bar>x\<bar>" by simp
  define e where "e = max (ilog2 \<bar>x\<bar>) (- 126)"
  define q :: rat where "q = 2 powi (e - 23)"
  have qpos: "0 < q" by (simp add: q_def)
  have "2 powi 24 * q = 2 powi (24 + (e - 23))"
    unfolding q_def by (rule power_int_add [symmetric]) simp
  moreover have "24 + (e - 23) = e + 1" by simp
  ultimately have pq: "2 powi 24 * q = 2 powi (e + 1)" by simp
  have "2 powi (ilog2 \<bar>x\<bar>) < (2::rat) powi 127"
    using ilog2_bounds(1) [OF pos] assms by simp
  then have "ilog2 \<bar>x\<bar> < 127" by (rule pow2_less_cancel)
  then have e: "e \<le> 126" by (simp add: e_def)
  have "\<bar>x\<bar> < 2 powi (ilog2 \<bar>x\<bar> + 1)" by (rule ilog2_bounds(2) [OF pos])
  also have "\<dots> \<le> 2 powi (e + 1)" by (intro power_int_increasing) (simp_all add: e_def)
  also have "\<dots> = 2 powi 24 * q" by (rule pq [symmetric])
  finally have "\<bar>x\<bar> / q < 2 powi 24" using qpos by (simp add: pos_divide_less_eq)
  moreover have "\<bar>q\<bar> = q" using qpos by (rule abs_of_pos)
  then have "\<bar>x / q\<bar> = \<bar>x\<bar> / q" by (simp only: abs_divide)
  moreover define y where "y = x / q"
  ultimately have y: "\<bar>y\<bar> < 2 ^ 24" by (simp only: power_int_numeral)
  have hi: "y \<le> of_int (2 ^ 24)" and lo: "of_int (- (2 ^ 24)) \<le> y"
    using y by simp_all
  have "\<lceil>y\<rceil> \<le> 2 ^ 24" using hi by (rule ceiling_le)
  moreover have "- (2 ^ 24) \<le> \<lfloor>y\<rfloor>" using lo by (simp only: le_floor_iff)
  ultimately have "\<bar>round_half_even y\<bar> \<le> 2 ^ 24"
    using round_half_even_bounds [of y] by linarith
  then have "(of_int \<bar>round_half_even y\<bar> :: rat) \<le> of_int (2 ^ 24)" by (simp only: of_int_le_iff)
  then have "\<bar>of_int (round_half_even y) * q\<bar> \<le> 2 powi 24 * q"
    using qpos by (simp add: abs_mult)
  also have "2 powi 24 * q = 2 powi (e + 1)" by (rule pq)
  also have "\<dots> < 2 powi 128" using e by (intro power_int_strict_increasing) simp_all
  finally have "\<not> 2 powi 128 \<le> \<bar>of_int (round_half_even y) * q\<bar>" by simp
  then show ?thesis
    using False by (simp add: round32_def Let_def e_def [symmetric] q_def [symmetric] y_def [symmetric])
qed

section \<open>Reading and checking a frame\<close>

lemma masterRead_loop_delivers:
  "rxLen + length wire \<le> len \<Longrightarrow> p + length wire \<le> length buf \<Longrightarrow>
   masterRead_loop wire buf p rxLen len =
     Some (take p buf @ wire @ drop (p + length wire) buf, rxLen + length wire)"
proof (induction wire arbitrary: buf p rxLen)
  case Nil
  then show ?case by simp
next
  case (Cons b wire)
  from Cons.prems have p: "p < length buf" by simp
  have "take (p + 1) (buf[p := b]) = take p buf @ [b]"
    using p by (simp add: take_Suc_conv_app_nth)
  moreover have "drop (p + 1 + length wire) (buf[p := b]) = drop (p + 1 + length wire) buf"
    by simp
  ultimately show ?case
    using Cons.prems Cons.IH [of "rxLen + 1" "p + 1" "buf[p := b]"] by simp
qed

lemma masterRead_full:
  "length wire = len \<Longrightarrow> length buf = len \<Longrightarrow> masterRead wire buf len = Some (wire, True)"
  using masterRead_loop_delivers [of 0 wire len 0 buf] by (simp add: masterRead_def)

lemma masterRead_short:
  "length wire < len \<Longrightarrow> length buf = len \<Longrightarrow>
   masterRead wire buf len = Some (wire @ drop (length wire) buf, False)"
  using masterRead_loop_delivers [of 0 wire len 0 buf] by (auto simp add: masterRead_def)

lemma unat_sum_list_u8: "unat (sum_list ws :: 8 word) = sum_list (map unat ws) mod 256"
proof (induction ws)
  case Nil
  show ?case by simp
next
  case (Cons w ws)
  have "unat (w + sum_list ws) = (unat w + unat (sum_list ws)) mod 256"
    by (simp add: unat_word_ariths)
  also have "\<dots> = (unat w + sum_list (map unat ws)) mod 256"
    by (simp add: Cons.IH mod_add_right_eq)
  finally show ?case by simp
qed

lemma chks_loop_sum:
  "length buf = sizeof_tI2CTable \<Longrightarrow> i \<le> sizeof_tI2CTable \<Longrightarrow>
   chks_loop buf chks i = chks + sum_list (drop i buf)"
proof (induction buf chks i rule: chks_loop.induct)
  case (1 buf chks i)
  show ?case
  proof (cases "i < sizeof_tI2CTable")
    case True
    then have "drop i buf = buf ! i # drop (Suc i) buf"
      using "1.prems" by (simp add: Cons_nth_drop_Suc)
    then show ?thesis
      using True "1.IH" "1.prems" by (subst chks_loop.simps) (simp add: add.assoc)
  next
    case False
    then show ?thesis using "1.prems" by (subst chks_loop.simps) simp
  qed
qed

lemma chks_zero_iff:
  assumes "length buf = sizeof_tI2CTable"
  shows "chks_loop buf 0 0 = 0 \<longleftrightarrow> sum_list (map unat buf) mod 256 = 0"
proof -
  have "chks_loop buf 0 0 = sum_list buf" using chks_loop_sum [OF assms, of 0 0] by simp
  moreover have "(sum_list buf = (0 :: 8 word)) = (unat (sum_list buf) = 0)"
    by (simp add: unat_eq_0)
  ultimately show ?thesis by (simp add: unat_sum_list_u8)
qed

lemma rebuild_vars_counters:
  "success (rebuild_vars s) = success s + 1" "error (rebuild_vars s) = error s"
  "comError (rebuild_vars s) = comError s" "loopCounter (rebuild_vars s) = loopCounter s"
  "I2CFrame (rebuild_vars s) = I2CFrame s" "FlowFilter (rebuild_vars s) = FlowFilter s"
  by (simp_all add: rebuild_vars_def Let_def)

lemma convert_flow_counters:
  "success (convert_flow s) = success s" "error (convert_flow s) = error s"
  "comError (convert_flow s) = comError s" "loopCounter (convert_flow s) = loopCounter s"
  "I2CFrame (convert_flow s) = I2CFrame s" "FlowFilter (convert_flow s) = FlowFilter s"
  "temp (convert_flow s) = temp s" "range_var (convert_flow s) = range_var s"
  "serialNumber (convert_flow s) = serialNumber s" "version (convert_flow s) = version s"
  "fwChks (convert_flow s) = fwChks s"
  by (simp_all add: convert_flow_def Let_def)

lemma apply_filter_fields:
  "success (apply_filter s) = success s" "error (apply_filter s) = error s"
  "comError (apply_filter s) = comError s" "loopCounter (apply_filter s) = loopCounter s"
  "I2CFrame (apply_filter s) = I2CFrame s" "flow (apply_filter s) = flow s"
  "temp (apply_filter s) = temp s" "range_var (apply_filter s) = range_var s"
  "serialNumber (apply_filter s) = serialNumber s" "version (apply_filter s) = version s"
  "fwChks (apply_filter s) = fwChks s" "flowValue (apply_filter s) = flowValue s"
  by (simp_all add: apply_filter_def)

lemma loop_full_frame:
  assumes "length b = sizeof_tI2CTable" and "length (I2CFrame s) = sizeof_tI2CTable"
  shows "loop s b = Some ((process_frame (s\<lparr>I2CFrame := b\<rparr>))
                          \<lparr>loopCounter := loopCounter (process_frame (s\<lparr>I2CFrame := b\<rparr>)) + 1\<rparr>)"
  using assms by (simp add: loop_def masterRead_full Let_def)

text \<open>
  C1: for every 32-byte sequence \<open>b\<close> that \<open>masterRead\<close> delivers, \<open>loop\<close> accepts
  the frame (counts it in \<open>success\<close>) if and only if the sum of all 32 bytes is 0
  modulo 256, and otherwise counts a checksum error in \<open>error\<close>. The one sum over the
  whole frame decides; no member's own checksum byte is looked at.
\<close>

theorem checksum_whole_frame:
  assumes "length b = sizeof_tI2CTable" and "length (I2CFrame s) = sizeof_tI2CTable"
  shows "\<exists>s'. loop s b = Some s'
           \<and> (success s' = success s + 1) = (sum_list (map unat b) mod 256 = 0)
           \<and> (error s' = error s + 1) = (sum_list (map unat b) mod 256 \<noteq> 0)
           \<and> (success s' = success s) = (sum_list (map unat b) mod 256 \<noteq> 0)
           \<and> (error s' = error s) = (sum_list (map unat b) mod 256 = 0)
           \<and> comError s' = comError s"
proof -
  let ?s = "s\<lparr>I2CFrame := b\<rparr>"
  have z: "chks_loop b 0 0 = 0 \<longleftrightarrow> sum_list (map unat b) mod 256 = 0"
    using assms(1) by (rule chks_zero_iff)
  show ?thesis
  proof (cases "chks_loop b 0 0 = 0")
    case True
    then show ?thesis
      using z by (simp add: loop_full_frame [OF assms] process_frame_def
          rebuild_vars_counters convert_flow_counters apply_filter_fields)
  next
    case False
    then show ?thesis
      using z by (simp add: loop_full_frame [OF assms] process_frame_def)
  qed
qed

theorem checksum_whole_frame_witness:
  "length frame_balanced_as_a_whole = sizeof_tI2CTable
   \<and> length (I2CFrame initial_globals) = sizeof_tI2CTable
   \<and> sum_list (map unat frame_balanced_as_a_whole) mod 256 = 0
   \<and> (\<exists>s'. loop initial_globals frame_balanced_as_a_whole = Some s'
             \<and> success s' = 1 \<and> error s' = 0)
   \<and> length frame_unbalanced = sizeof_tI2CTable
   \<and> sum_list (map unat frame_unbalanced) mod 256 = 1
   \<and> (\<exists>s'. loop initial_globals frame_unbalanced = Some s'
             \<and> success s' = 0 \<and> error s' = 1)"
proof -
  have l0: "length (I2CFrame initial_globals) = sizeof_tI2CTable"
    by (simp add: initial_globals_def)
  have l1: "length frame_balanced_as_a_whole = sizeof_tI2CTable"
    by (simp add: frame_balanced_as_a_whole_def sizeof_tI2CTable_def)
  have l2: "length frame_unbalanced = sizeof_tI2CTable"
    by (simp add: frame_unbalanced_def sizeof_tI2CTable_def)
  have s1: "sum_list (map unat frame_balanced_as_a_whole) mod 256 = 0"
    by (simp add: frame_balanced_as_a_whole_def sum_list_replicate)
  have s2: "sum_list (map unat frame_unbalanced) mod 256 = 1"
    by (simp add: frame_unbalanced_def sum_list_replicate)
  have c: "success initial_globals = 0" "error initial_globals = 0"
    by (simp_all add: initial_globals_def)
  from checksum_whole_frame [OF l1 l0] s1 c
  have a: "\<exists>s'. loop initial_globals frame_balanced_as_a_whole = Some s'
             \<and> success s' = 1 \<and> error s' = 0"
    by auto
  from checksum_whole_frame [OF l2 l0] s2 c
  have b: "\<exists>s'. loop initial_globals frame_unbalanced = Some s'
             \<and> success s' = 0 \<and> error s' = 1"
    by auto
  from l0 l1 l2 s1 s2 a b show ?thesis by blast
qed

section \<open>Exact conversions and constants\<close>

lemma float_of_int_exact: "\<bar>i\<bar> < 2 ^ 24 \<Longrightarrow> float_of_int i = Finite (of_int i)"
  using round32_exact [of i 0] by (simp add: float_of_int_def)

lemma float_of_int_0 [simp]: "float_of_int 0 = Finite 0"
  by (simp add: float_of_int_exact)

lemma float_of_int_1 [simp]: "float_of_int 1 = Finite 1"
  using float_of_int_exact [of 1] by simp

lemma float_of_int_0x7FFFFF [simp]: "float_of_int 0x7FFFFF = Finite 8388607"
  using float_of_int_exact [of 8388607] by simp

lemma round32_0 [simp]: "round32 0 = Finite 0"
  by (simp add: round32_def)

lemma EMA_DEFAULT_ALPHA_half: "EMA_DEFAULT_ALPHA = Finite (1 / 2)"
  using round32_exact [of 1 "- 1"] by (simp add: EMA_DEFAULT_ALPHA_def)

lemma float_of_int_finite: "\<bar>i\<bar> \<le> 2 ^ 31 \<Longrightarrow> \<exists>r. float_of_int i = Finite r"
proof -
  assume "\<bar>i\<bar> \<le> 2 ^ 31"
  then have "(of_int \<bar>i\<bar> :: rat) \<le> of_int (2 ^ 31)" by (simp only: of_int_le_iff)
  then have "\<bar>of_int i :: rat\<bar> < 2 powi 127" by simp
  then show ?thesis unfolding float_of_int_def by (rule round32_finite)
qed

section \<open>Frames that fail the checksum\<close>

text \<open>
  C3: when the checksum of a delivered frame is not 0, \<open>loop\<close> leaves \<open>flow\<close>,
  \<open>temp\<close>, \<open>range\<close>, \<open>serialNumber\<close>, \<open>version\<close>, \<open>fwChks\<close>, \<open>flowValue\<close>
  and the filter as they were and, of the three frame counters, adds one to \<open>error\<close>
  only. Lines 233 to 277 change nothing else; around them \<open>loop\<close> has stored the
  received bytes in \<open>I2CFrame\<close> and counts the call in \<open>loopCounter\<close>.
\<close>

theorem checksum_failure_discards_frame:
  assumes "length b = sizeof_tI2CTable" and "length (I2CFrame s) = sizeof_tI2CTable"
    and "chks_loop b 0 0 \<noteq> 0"
  shows "process_frame (s\<lparr>I2CFrame := b\<rparr>) = s\<lparr>I2CFrame := b, error := error s + 1\<rparr>
       \<and> loop s b = Some (s\<lparr>I2CFrame := b, error := error s + 1,
                              loopCounter := loopCounter s + 1\<rparr>)
       \<and> map_option flow (loop s b) = Some (flow s)
       \<and> map_option temp (loop s b) = Some (temp s)
       \<and> map_option range_var (loop s b) = Some (range_var s)
       \<and> map_option serialNumber (loop s b) = Some (serialNumber s)
       \<and> map_option version (loop s b) = Some (version s)
       \<and> map_option fwChks (loop s b) = Some (fwChks s)
       \<and> map_option FlowFilter (loop s b) = Some (FlowFilter s)
       \<and> map_option flowValue (loop s b) = Some (flowValue s)
       \<and> map_option error (loop s b) = Some (error s + 1)
       \<and> map_option success (loop s b) = Some (success s)
       \<and> map_option comError (loop s b) = Some (comError s)"
proof -
  have p: "process_frame (s\<lparr>I2CFrame := b\<rparr>) = s\<lparr>I2CFrame := b, error := error s + 1\<rparr>"
    using assms(3) by (simp add: process_frame_def)
  have l: "loop s b = Some (s\<lparr>I2CFrame := b, error := error s + 1,
                              loopCounter := loopCounter s + 1\<rparr>)"
    by (simp add: loop_full_frame [OF assms(1,2)] p)
  show ?thesis by (simp add: p l)
qed

theorem checksum_failure_discards_frame_witness:
  "length frame_unbalanced = sizeof_tI2CTable
   \<and> length (I2CFrame initial_globals) = sizeof_tI2CTable
   \<and> chks_loop frame_unbalanced 0 0 \<noteq> 0
   \<and> loop initial_globals frame_unbalanced
       = Some (initial_globals\<lparr>I2CFrame := frame_unbalanced, error := 1, loopCounter := 1\<rparr>)
   \<and> map_option FlowFilter (loop initial_globals frame_unbalanced)
       = Some (cEMAFilter_default zero_cEMAFilter)"
proof -
  have l0: "length (I2CFrame initial_globals) = sizeof_tI2CTable"
    by (simp add: initial_globals_def)
  have l2: "length frame_unbalanced = sizeof_tI2CTable"
    by (simp add: frame_unbalanced_def sizeof_tI2CTable_def)
  have "sum_list (map unat frame_unbalanced) mod 256 \<noteq> 0"
    by (simp add: frame_unbalanced_def sum_list_replicate)
  then have c: "chks_loop frame_unbalanced 0 0 \<noteq> 0"
    by (simp add: chks_zero_iff [OF l2])
  have e: "error initial_globals = 0" "loopCounter initial_globals = 0"
    "FlowFilter initial_globals = cEMAFilter_default zero_cEMAFilter"
    by (simp_all add: initial_globals_def)
  from checksum_failure_discards_frame [OF l2 l0 c] l0 l2 c e show ?thesis by simp
qed

section \<open>Configuration\<close>

lemma config_test: 
  "((0 < unat n \<and> unat n \<le> MAX_EMA_ORDER) \<and> (fgt a (float_of_int 0) \<and> flt a (float_of_int 1)))
   = config_in_range a n"
  by (cases a) (auto simp: config_in_range_def fgt_def)

text \<open>
  C6: \<open>config\<close> stores \<open>alpha\<close> and \<open>order\<close> if and only if \<open>0 < alpha < 1\<close> and
  \<open>1 \<le> order \<le> MAX_EMA_ORDER\<close>; with any other argument it changes nothing.
\<close>

theorem config_updates_iff_in_range:
  "cEMAFilter_config this a n =
     (if config_in_range a n then this\<lparr>order := n, alpha := a\<rparr> else this)"
  unfolding cEMAFilter_config_def config_test by (rule refl)

theorem config_updates_iff_in_range_witness:
  "config_in_range (Finite (1 / 4)) 3
   \<and> \<not> config_in_range (Finite (3 / 2)) 3
   \<and> \<not> config_in_range (Finite (1 / 4)) 0
   \<and> \<not> config_in_range (Finite (1 / 4)) 11
   \<and> \<not> config_in_range (Finite 1) 3 \<and> \<not> config_in_range (Finite 0) 3
   \<and> \<not> config_in_range NaN 3
   \<and> cEMAFilter_config (cEMAFilter_default zero_cEMAFilter) (Finite (1 / 4)) 3
       = (cEMAFilter_default zero_cEMAFilter)\<lparr>order := 3, alpha := Finite (1 / 4)\<rparr>
   \<and> cEMAFilter_config
         (cEMAFilter_config (cEMAFilter_default zero_cEMAFilter) (Finite (1 / 4)) 3)
         (Finite (3 / 2)) 3
       = cEMAFilter_config (cEMAFilter_default zero_cEMAFilter) (Finite (1 / 4)) 3
   \<and> cEMAFilter_config
         (cEMAFilter_config (cEMAFilter_default zero_cEMAFilter) (Finite (1 / 4)) 3)
         (Finite (1 / 4)) 0
       = cEMAFilter_config (cEMAFilter_default zero_cEMAFilter) (Finite (1 / 4)) 3"
proof -
  have r: "config_in_range (Finite (1 / 4)) 3" "\<not> config_in_range (Finite (3 / 2)) 3"
    "\<not> config_in_range (Finite (1 / 4)) 0" "\<not> config_in_range (Finite (1 / 4)) 11"
    "\<not> config_in_range (Finite 1) 3" "\<not> config_in_range (Finite 0) 3"
    "\<not> config_in_range NaN 3"
    by (simp_all add: config_in_range_def MAX_EMA_ORDER_def)
  show ?thesis
    using r config_updates_iff_in_range [of "cEMAFilter_default zero_cEMAFilter" "Finite (1 / 4)" 3]
      config_updates_iff_in_range [of "(cEMAFilter_default zero_cEMAFilter)\<lparr>order := 3, alpha := Finite (1 / 4)\<rparr>" "Finite (3 / 2)" 3]
      config_updates_iff_in_range [of "(cEMAFilter_default zero_cEMAFilter)\<lparr>order := 3, alpha := Finite (1 / 4)\<rparr>" "Finite (1 / 4)" 0]
    by simp
qed

section \<open>The constructor with parameters\<close>

lemma default_in_range: "config_in_range EMA_DEFAULT_ALPHA EMA_DEFAULT_ORDER"
  by (simp add: config_in_range_def EMA_DEFAULT_ALPHA_half EMA_DEFAULT_ORDER_def MAX_EMA_ORDER_def)

text \<open>
  C10: the constructor with parameters builds the same filter as the default
  constructor, with \<open>alpha = 0.5\<close> and \<open>order = 5\<close>, whatever arguments it is given.
\<close>

theorem param_constructor_ignores_arguments:
  "cEMAFilter_param mem a n = cEMAFilter_default mem
   \<and> alpha (cEMAFilter_param mem a n) = Finite (1 / 2)
   \<and> order (cEMAFilter_param mem a n) = 5"
proof -
  have "cEMAFilter_param mem a n
        = cEMAFilter_config (mem\<lparr>firstSample := True\<rparr>) EMA_DEFAULT_ALPHA EMA_DEFAULT_ORDER"
    by (simp add: cEMAFilter_param_def Let_def)
  also have "\<dots> = mem\<lparr>firstSample := True, order := EMA_DEFAULT_ORDER,
                        alpha := EMA_DEFAULT_ALPHA\<rparr>"
    unfolding cEMAFilter_config_def config_test using default_in_range by simp
  finally have "cEMAFilter_param mem a n = cEMAFilter_default mem"
    by (simp add: cEMAFilter_default_def)
  then show ?thesis
    by (simp add: cEMAFilter_default_def EMA_DEFAULT_ALPHA_half EMA_DEFAULT_ORDER_def)
qed

theorem param_constructor_ignores_arguments_witness:
  "cEMAFilter_param zero_cEMAFilter (Finite (9 / 10)) 3 = cEMAFilter_default zero_cEMAFilter
   \<and> alpha (cEMAFilter_param zero_cEMAFilter (Finite (9 / 10)) 3) = Finite (1 / 2)
   \<and> order (cEMAFilter_param zero_cEMAFilter (Finite (9 / 10)) 3) = 5"
  using param_constructor_ignores_arguments [of zero_cEMAFilter "Finite (9 / 10)" 3] by blast

section \<open>Rebuilding the variables\<close>

lemma take2_drop: "i + 2 \<le> length xs \<Longrightarrow> take 2 (drop i xs) = [xs ! i, xs ! (i + 1)]"
  by (simp add: numeral_2_eq_2 take_Suc_conv_app_nth)

lemma take3_drop:
  "i + 3 \<le> length xs \<Longrightarrow> take 3 (drop i xs) = [xs ! i, xs ! (i + 1), xs ! (i + 2)]"
  by (simp add: numeral_3_eq_3 take_Suc_conv_app_nth)

lemma take3: "3 \<le> length xs \<Longrightarrow> take 3 xs = [xs ! 0, xs ! 1, xs ! 2]"
  using take3_drop [of 0 xs] by (simp add: numeral_2_eq_2)

lemma take4_drop:
  "i + 4 \<le> length xs \<Longrightarrow>
   take 4 (drop i xs) = [xs ! i, xs ! (i + 1), xs ! (i + 2), xs ! (i + 3)]"
  by (simp add: eval_nat_numeral take_Suc_conv_app_nth)

lemma bytes_of_0: "bytes_of 4 (0 :: 32 word) = [0, 0, 0, 0]" "bytes_of 2 (0 :: 16 word) = [0, 0]"
  by (simp_all add: bytes_of_def upt_rec)

lemma le_nat_bound: "le_nat bs < 256 ^ length bs"
proof (induction bs)
  case Nil
  show ?case by simp
next
  case (Cons b bs)
  have "unat b < 256" using unsigned_less [of b, where ?'a = nat] by simp
  then have "unat b + 256 * le_nat bs < 256 + 256 * le_nat bs" by simp
  also have "\<dots> = 256 * (le_nat bs + 1)" by simp
  also have "\<dots> \<le> 256 * 256 ^ length bs" using Cons.IH by (intro mult_le_mono2) simp
  finally show ?case by simp
qed

lemma unat_of_bytes32: "length bs \<le> 4 \<Longrightarrow> unat (of_bytes bs :: 32 word) = le_nat bs"
proof -
  assume "length bs \<le> 4"
  then have "(256::nat) ^ length bs \<le> 256 ^ 4" by (intro power_increasing) simp_all
  with le_nat_bound [of bs] have "le_nat bs < 2 ^ 32" by simp
  then show ?thesis by (simp add: of_bytes_def unat_of_nat)
qed

lemma unat_of_bytes16: "length bs \<le> 2 \<Longrightarrow> unat (of_bytes bs :: 16 word) = le_nat bs"
proof -
  assume "length bs \<le> 2"
  then have "(256::nat) ^ length bs \<le> 256 ^ 2" by (intro power_increasing) simp_all
  with le_nat_bound [of bs] have "le_nat bs < 2 ^ 16" by simp
  then show ?thesis by (simp add: of_bytes_def unat_of_nat)
qed

lemma rebuild_flow:
  assumes "length (I2CFrame s) = sizeof_tI2CTable"
  shows "unat (flow (rebuild_vars s))
         = unat (I2CFrame s ! 0) + 256 * unat (I2CFrame s ! 1) + 65536 * unat (I2CFrame s ! 2)"
  using assms take3 [of "I2CFrame s"]
  by (simp add: rebuild_vars_def RebuildVarFromBuffer_def memcpy_def I2CTable_flow_def
      bytes_of_0 unat_of_bytes32 sizeof_tI2CTable_def)

lemma rebuild_temp:
  assumes "length (I2CFrame s) = sizeof_tI2CTable"
  shows "unat (temp (rebuild_vars s)) = unat (I2CFrame s ! 4) + 256 * unat (I2CFrame s ! 5)"
  using assms take2_drop [of 4 "I2CFrame s"]
  by (simp add: rebuild_vars_def RebuildVarFromBuffer_def memcpy_def I2CTable_temp_def
      bytes_of_0 unat_of_bytes16 sizeof_tI2CTable_def)

lemma rebuild_range:
  assumes "length (I2CFrame s) = sizeof_tI2CTable"
  shows "unat (range_var (rebuild_vars s))
         = unat (I2CFrame s ! 7) + 256 * unat (I2CFrame s ! 8) + 65536 * unat (I2CFrame s ! 9)"
  using assms take3_drop [of 7 "I2CFrame s"]
  by (simp add: rebuild_vars_def RebuildVarFromBuffer_def memcpy_def I2CTable_range_def
      bytes_of_0 unat_of_bytes32 sizeof_tI2CTable_def)

lemma rebuild_fwChks:
  assumes "length (I2CFrame s) = sizeof_tI2CTable"
  shows "unat (fwChks (rebuild_vars s))
         = unat (I2CFrame s ! 27) + 256 * unat (I2CFrame s ! 28)
           + 65536 * unat (I2CFrame s ! 29) + 16777216 * unat (I2CFrame s ! 30)"
  using assms take4_drop [of 27 "I2CFrame s"]
  by (simp add: rebuild_vars_def RebuildVarFromBuffer_def memcpy_def I2CTable_fwChks_def
      bytes_of_0 unat_of_bytes32 sizeof_tI2CTable_def)

lemma rebuild_serialNumber:
  assumes "length (serialNumber s) = 10"
  shows "serialNumber (rebuild_vars s) = take 10 (drop 11 (I2CFrame s))"
  using assms
  by (simp add: rebuild_vars_def RebuildVarFromBuffer_def memcpy_def memset_def
      I2CTable_serialNumber_def)

lemma rebuild_version:
  assumes "length (version s) = 4"
  shows "version (rebuild_vars s) = take 4 (drop 22 (I2CFrame s))"
  using assms
  by (simp add: rebuild_vars_def RebuildVarFromBuffer_def memcpy_def memset_def
      I2CTable_version_def)


lemma unat_ucast8: "unat (ucast (w :: 'a::len word) :: 8 word) = unat w mod 256"
  by (simp add: unsigned_ucast_eq take_bit_eq_mod)

lemma unat_byte:
  "unat (ucast (drop_bit k (w :: 'a::len word)) :: 8 word) = unat w div 2 ^ k mod 256"
  unfolding unat_ucast8 unat_drop_bit_eq by (simp add: drop_bit_eq_div)

lemma bytes_sum4:
  assumes "n < 2 ^ 32"
  shows "n div 2 ^ 0 mod 256 + 256 * (n div 2 ^ 8 mod 256
          + 256 * (n div 2 ^ 16 mod 256 + 256 * (n div 2 ^ 24 mod 256 + 256 * 0))) = (n::nat)"
proof -
  define a where "a = n div 256"
  define b where "b = a div 256"
  define c where "c = b div 256"
  have d: "n div 2 ^ 8 = a" "n div 2 ^ 16 = b" "n div 2 ^ 24 = c"
    by (simp_all add: a_def b_def c_def div_mult2_eq)
  have "c < 256" using assms unfolding d(3) [symmetric] by (simp add: less_mult_imp_div_less)
  then have c: "c mod 256 = c" by simp
  have "b mod 256 + 256 * c = b" unfolding c_def by (rule mod_mult_div_eq)
  moreover have "a mod 256 + 256 * b = a" unfolding b_def by (rule mod_mult_div_eq)
  moreover have "n mod 256 + 256 * a = n" unfolding a_def by (rule mod_mult_div_eq)
  ultimately show ?thesis unfolding d c by simp
qed

lemma bytes_sum2:
  assumes "n < 2 ^ 16"
  shows "n div 2 ^ 0 mod 256 + 256 * (n div 2 ^ 8 mod 256 + 256 * 0) = (n::nat)"
proof -
  define a where "a = n div 256"
  have d: "n div 2 ^ 8 = a" by (simp add: a_def)
  have "a < 256" using assms unfolding d [symmetric] by (simp add: less_mult_imp_div_less)
  then have c: "a mod 256 = a" by simp
  have "n mod 256 + 256 * a = n" unfolding a_def by (rule mod_mult_div_eq)
  then show ?thesis unfolding d c by simp
qed

lemma of_bytes_bytes_of32: "of_bytes (bytes_of 4 (w :: 32 word)) = w"
proof -
  have n: "unat w < 2 ^ 32" using unsigned_less [of w, where ?'a = nat] by simp
  have b: "bytes_of 4 w = [ucast (drop_bit 0 w), ucast (drop_bit 8 w), ucast (drop_bit 16 w),
                           ucast (drop_bit 24 w)]"
    by (simp add: bytes_of_def upt_rec)
  have "le_nat (bytes_of 4 w) = unat w"
    unfolding b le_nat.simps unat_byte by (rule bytes_sum4 [OF n])
  then show ?thesis by (simp add: of_bytes_def)
qed

lemma of_bytes_bytes_of16: "of_bytes (bytes_of 2 (w :: 16 word)) = w"
proof -
  have n: "unat w < 2 ^ 16" using unsigned_less [of w, where ?'a = nat] by simp
  have b: "bytes_of 2 w = [ucast (drop_bit 0 w), ucast (drop_bit 8 w)]"
    by (simp add: bytes_of_def upt_rec)
  have "le_nat (bytes_of 2 w) = unat w"
    unfolding b le_nat.simps unat_byte by (rule bytes_sum2 [OF n])
  then show ?thesis by (simp add: of_bytes_def)
qed

text \<open>
  C4: for a frame that passes the checksum, each variable rebuilt in lines 246 to 260
  is the little-endian value of exactly the bytes of its member: three bytes for
  \<open>flow\<close> and \<open>range\<close> (the fourth byte of the variable stays 0), two for \<open>temp\<close>,
  four for \<open>fwChks\<close>, and the ten and four bytes of \<open>serialNumber\<close> and \<open>version\<close>
  as they are. All of them but \<open>flow\<close> keep that value to the end of \<open>loop\<close>; the
  conversion replaces a \<open>flow\<close> with bit 23 set by its magnitude.
\<close>

theorem valid_frame_fields_little_endian:
  assumes "globals_ok s" and "chks_loop (I2CFrame s) 0 0 = 0"
  shows "process_frame s = apply_filter (convert_flow (rebuild_vars s))
       \<and> unat (flow (rebuild_vars s))
           = unat (I2CFrame s ! 0) + 256 * unat (I2CFrame s ! 1) + 65536 * unat (I2CFrame s ! 2)
       \<and> unat (temp (rebuild_vars s)) = unat (I2CFrame s ! 4) + 256 * unat (I2CFrame s ! 5)
       \<and> unat (range_var (rebuild_vars s))
           = unat (I2CFrame s ! 7) + 256 * unat (I2CFrame s ! 8) + 65536 * unat (I2CFrame s ! 9)
       \<and> serialNumber (rebuild_vars s) = take 10 (drop 11 (I2CFrame s))
       \<and> version (rebuild_vars s) = take 4 (drop 22 (I2CFrame s))
       \<and> unat (fwChks (rebuild_vars s))
           = unat (I2CFrame s ! 27) + 256 * unat (I2CFrame s ! 28)
             + 65536 * unat (I2CFrame s ! 29) + 16777216 * unat (I2CFrame s ! 30)
       \<and> temp (process_frame s) = temp (rebuild_vars s)
       \<and> range_var (process_frame s) = range_var (rebuild_vars s)
       \<and> serialNumber (process_frame s) = serialNumber (rebuild_vars s)
       \<and> version (process_frame s) = version (rebuild_vars s)
       \<and> fwChks (process_frame s) = fwChks (rebuild_vars s)"
proof -
  from assms(1) have len: "length (I2CFrame s) = sizeof_tI2CTable"
    and sn: "length (serialNumber s) = 10" and ve: "length (version s) = 4"
    by (simp_all add: globals_ok_def)
  have p: "process_frame s = apply_filter (convert_flow (rebuild_vars s))"
    using assms(2) by (simp add: process_frame_def)
  show ?thesis
    unfolding p
    by (simp only: rebuild_flow [OF len] rebuild_temp [OF len] rebuild_range [OF len]
        rebuild_fwChks [OF len] rebuild_serialNumber [OF sn] rebuild_version [OF ve]
        apply_filter_fields convert_flow_counters simp_thms)
qed

theorem valid_frame_fields_little_endian_witness:
  "globals_ok (initial_globals\<lparr>I2CFrame := frame_flow_0x2010\<rparr>)
   \<and> chks_loop (I2CFrame (initial_globals\<lparr>I2CFrame := frame_flow_0x2010\<rparr>)) 0 0 = 0
   \<and> take 3 frame_flow_0x2010 = [0x10, 0x20, 0x00]
   \<and> unat (flow (rebuild_vars (initial_globals\<lparr>I2CFrame := frame_flow_0x2010\<rparr>))) = 0x002010
   \<and> flow (rebuild_vars (initial_globals\<lparr>I2CFrame := frame_flow_0x2010\<rparr>)) = 0x002010
   \<and> serialNumber (rebuild_vars (initial_globals\<lparr>I2CFrame := frame_flow_0x2010\<rparr>))
       = [1, 2, 3, 4, 5, 6, 7, 8, 9, 10]"
proof -
  let ?s = "initial_globals\<lparr>I2CFrame := frame_flow_0x2010\<rparr>"
  have len: "length frame_flow_0x2010 = sizeof_tI2CTable"
    by (simp add: frame_flow_0x2010_def sizeof_tI2CTable_def)
  have ok: "globals_ok ?s"
    using len by (simp add: globals_ok_def initial_globals_def cEMAFilter_ok_def
        cEMAFilter_default_def zero_cEMAFilter_def EMA_DEFAULT_ORDER_def MAX_EMA_ORDER_def)
  have "sum_list (map unat frame_flow_0x2010) mod 256 = 0"
    by (simp add: frame_flow_0x2010_def sum_list_replicate)
  then have c: "chks_loop (I2CFrame ?s) 0 0 = 0"
    using chks_zero_iff [OF len] by simp
  have u: "unat (flow (rebuild_vars ?s)) = 0x002010"
    and sn: "serialNumber (rebuild_vars ?s) = [1, 2, 3, 4, 5, 6, 7, 8, 9, 10]"
    using valid_frame_fields_little_endian [OF ok c] by (simp_all add: frame_flow_0x2010_def)
  have "unat (flow (rebuild_vars ?s)) = unat (0x002010 :: 32 word)" using u by simp
  then have "flow (rebuild_vars ?s) = 0x002010" by (simp only: word_unat_eq_iff)
  with ok c u sn show ?thesis by (simp add: frame_flow_0x2010_def)
qed

section \<open>Sign and magnitude of the raw flow\<close>

lemma neg32: "NOT w + 1 = - (w :: 32 word)"
  by (simp add: minus_eq_not_plus_1)

lemma mask23: "(w :: 32 word) AND 0x7FFFFF = take_bit 23 w"
  by (simp add: take_bit_eq_mask mask_eq_exp_minus_1)

lemma test_bit23: "((w :: 32 word) AND 0x800000 \<noteq> 0) = bit w 23"
proof -
  have "(0x800000 :: 32 word) = 2 ^ 23" by simp
  then show ?thesis by (simp only: and_exp_eq_0_iff_not_bit simp_thms)
qed

lemma uint_magnitude: "uint (take_bit 23 (- (w :: 32 word))) = (- uint w) mod 2 ^ 23"
proof -
  have "uint (take_bit 23 (- w)) = take_bit 23 (uint (- w))"
    by (rule unsigned_take_bit_eq)
  also have "\<dots> = uint (- w) mod 2 ^ 23" by (rule take_bit_eq_mod)
  also have "uint (- w) = - uint w mod 2 ^ 32" by (simp add: uint_word_ariths)
  finally have "uint (take_bit 23 (- w)) = (- uint w mod 2 ^ 32) mod 2 ^ 23" .
  also have "\<dots> = (- uint w) mod 2 ^ 23"
    by (rule mod_mod_cancel) simp
  finally show ?thesis .
qed

lemma sint_small: "uint (w :: 32 word) < 2 ^ 31 \<Longrightarrow> sint w = uint w"
proof -
  assume a: "uint w < 2 ^ 31"
  have "- (2 ^ 31) \<le> uint w" by (rule order_trans [of _ 0]) simp_all
  then have "signed_take_bit 31 (uint w) = uint w"
    using a by (rule signed_take_bit_int_eq_self)
  then show ?thesis by (simp add: sint_uint)
qed

lemma float_of_sint_24: "uint (w :: 32 word) < 2 ^ 24 \<Longrightarrow> float_of_int (sint w) = Finite (of_int (uint w))"
proof -
  assume a: "uint w < 2 ^ 24"
  then have "sint w = uint w" by (intro sint_small) simp
  moreover have "\<bar>uint w\<bar> < 2 ^ 24" using a by simp
  ultimately show ?thesis by (simp add: float_of_int_exact)
qed

lemma magnitude_less: "uint (take_bit 23 (- (w :: 32 word))) < 2 ^ 24"
proof -
  have "(- uint w) mod 2 ^ 23 < 2 ^ 23" by simp
  then show ?thesis unfolding uint_magnitude by simp
qed

lemma convert_flow_negative:
  assumes "bit (flow s) 23"
  shows "flow (convert_flow s) = (- flow s) AND 0x7FFFFF"
    and "uint (flow (convert_flow s)) = (- uint (flow s)) mod 2 ^ 23"
    and "flowValue (convert_flow s)
         = fdiv (fneg (fmul (Finite (of_int ((- uint (flow s)) mod 2 ^ 23)))
                            (float_of_int (sint (range_var s)))))
                (Finite 8388607)"
    and "range_var (convert_flow s) = range_var s"
proof -
  have t: "flow s AND 0x800000 \<noteq> 0" using assms by (simp only: test_bit23)
  have f: "flow (convert_flow s) = take_bit 23 (- flow s)"
    using t by (simp add: convert_flow_def Let_def neg32 mask23)
  show "flow (convert_flow s) = (- flow s) AND 0x7FFFFF" by (simp only: f mask23)
  show "uint (flow (convert_flow s)) = (- uint (flow s)) mod 2 ^ 23"
    by (simp only: f uint_magnitude)
  have "flowValue (convert_flow s)
        = fdiv (fneg (fmul (float_of_int (sint (take_bit 23 (- flow s))))
                           (float_of_int (sint (range_var s)))))
               (float_of_int 0x7FFFFF)"
    using t by (simp add: convert_flow_def Let_def neg32 mask23)
  then show "flowValue (convert_flow s)
         = fdiv (fneg (fmul (Finite (of_int ((- uint (flow s)) mod 2 ^ 23)))
                            (float_of_int (sint (range_var s)))))
                (Finite 8388607)"
    by (simp only: float_of_sint_24 [OF magnitude_less] uint_magnitude float_of_int_0x7FFFFF)
  show "range_var (convert_flow s) = range_var s" by (rule convert_flow_counters)
qed

lemma convert_flow_positive:
  assumes "\<not> bit (flow s) 23"
  shows "flow (convert_flow s) = flow s"
    and "flowValue (convert_flow s)
         = fdiv (fmul (float_of_int (sint (flow s))) (float_of_int (sint (range_var s))))
                (Finite 8388607)"
proof -
  have t: "flow s AND 0x800000 = 0" using assms test_bit23 [of "flow s"] by blast
  show "flow (convert_flow s) = flow s" using t by (simp add: convert_flow_def)
  show "flowValue (convert_flow s)
         = fdiv (fmul (float_of_int (sint (flow s))) (float_of_int (sint (range_var s))))
                (Finite 8388607)"
    using t by (simp add: convert_flow_def)
qed

text \<open>
  C2, in the form that holds: for a decoded \<open>flow\<close> and \<open>range\<close> below \<open>2^24\<close>, the test of line
  263 is the test of bit 23. With bit 23 set, \<open>flow\<close> becomes the two's-complement
  negation of the raw value masked with \<open>0x7FFFFF\<close>, that is \<open>(- raw) mod 2^23\<close>, and
  \<open>flowValue\<close> is \<open>-(magnitude * range) / 0x7FFFFF\<close> in single precision; with bit
  23 clear \<open>flow\<close> is kept and \<open>flowValue\<close> is \<open>(flow * range) / 0x7FFFFF\<close>.
\<close>

theorem flow_conversion:
  assumes "uint (flow s) < 2 ^ 24" and "uint (range_var s) < 2 ^ 24"
  shows "(flow s AND 0x800000 \<noteq> 0) = bit (flow s) 23
       \<and> (bit (flow s) 23 \<longrightarrow>
            flow (convert_flow s) = (- flow s) AND 0x7FFFFF
            \<and> uint (flow (convert_flow s)) = (- uint (flow s)) mod 2 ^ 23
            \<and> flowValue (convert_flow s)
                = fdiv (fneg (fmul (Finite (of_int ((- uint (flow s)) mod 2 ^ 23)))
                                   (Finite (of_int (uint (range_var s))))))
                       (Finite 8388607))
       \<and> (\<not> bit (flow s) 23 \<longrightarrow>
            flow (convert_flow s) = flow s
            \<and> flowValue (convert_flow s)
                = fdiv (fmul (Finite (of_int (uint (flow s))))
                             (Finite (of_int (uint (range_var s)))))
                       (Finite 8388607))"
proof -
  note r = float_of_sint_24 [OF assms(2)] and f = float_of_sint_24 [OF assms(1)]
  have A: "(flow s AND 0x800000 \<noteq> 0) = bit (flow s) 23" by (rule test_bit23)
  have B: "flow (convert_flow s) = (- flow s) AND 0x7FFFFF
            \<and> uint (flow (convert_flow s)) = (- uint (flow s)) mod 2 ^ 23
            \<and> flowValue (convert_flow s)
                = fdiv (fneg (fmul (Finite (of_int ((- uint (flow s)) mod 2 ^ 23)))
                                   (Finite (of_int (uint (range_var s))))))
                       (Finite 8388607)" if b: "bit (flow s) 23"
    using convert_flow_negative(1) [OF b] convert_flow_negative(2) [OF b]
      convert_flow_negative(3) [OF b, unfolded r] by blast
  have C: "flow (convert_flow s) = flow s
            \<and> flowValue (convert_flow s)
                = fdiv (fmul (Finite (of_int (uint (flow s))))
                             (Finite (of_int (uint (range_var s)))))
                       (Finite 8388607)" if b: "\<not> bit (flow s) 23"
    using convert_flow_positive(1) [OF b] convert_flow_positive(2) [OF b, unfolded r f]
    by blast
  from A B C show ?thesis by blast
qed

theorem flow_conversion_witness:
  "uint (flow globals_flow_0x800001) < 2 ^ 24 \<and> uint (range_var globals_flow_0x800001) < 2 ^ 24
   \<and> bit (flow globals_flow_0x800001) 23
   \<and> flow (convert_flow globals_flow_0x800001) = 0x7FFFFF
   \<and> flowValue (convert_flow globals_flow_0x800001) = Finite (- 1000)
   \<and> uint (flow globals_flow_1) < 2 ^ 24 \<and> uint (range_var globals_flow_1) < 2 ^ 24
   \<and> \<not> bit (flow globals_flow_1) 23
   \<and> flow (convert_flow globals_flow_1) = 1
   \<and> flowValue (convert_flow globals_flow_1) = Finite (8192001 / 68719476736)
   \<and> flowValue (convert_flow globals_flow_0) = Finite 0"
proof -
  have a: "uint (flow globals_flow_0x800001) < 2 ^ 24"
    "uint (range_var globals_flow_0x800001) < 2 ^ 24" "bit (flow globals_flow_0x800001) 23"
    "(- flow globals_flow_0x800001) AND 0x7FFFFF = 0x7FFFFF"
    "fdiv (fneg (fmul (Finite (of_int ((- uint (flow globals_flow_0x800001)) mod 2 ^ 23)))
                      (Finite (of_int (uint (range_var globals_flow_0x800001))))))
          (Finite 8388607) = Finite (- 1000)"
    by code_simp+
  have b: "uint (flow globals_flow_1) < 2 ^ 24" "uint (range_var globals_flow_1) < 2 ^ 24"
    "\<not> bit (flow globals_flow_1) 23" "flow globals_flow_1 = 1"
    "fdiv (fmul (Finite (of_int (uint (flow globals_flow_1))))
                (Finite (of_int (uint (range_var globals_flow_1)))))
          (Finite 8388607) = Finite (8192001 / 68719476736)"
    by code_simp+
  have c: "uint (flow globals_flow_0) < 2 ^ 24" "uint (range_var globals_flow_0) < 2 ^ 24"
    "\<not> bit (flow globals_flow_0) 23"
    "fdiv (fmul (Finite (of_int (uint (flow globals_flow_0))))
                (Finite (of_int (uint (range_var globals_flow_0)))))
          (Finite 8388607) = Finite 0"
    by code_simp+
  show ?thesis
    using flow_conversion [OF a(1,2)] flow_conversion [OF b(1,2)] flow_conversion [OF c(1,2)]
      a b c
    by simp
qed

theorem flow_0x800001_magnitude_counterexample:
  "flow (convert_flow globals_flow_0x800001) = 0x7FFFFF
   \<and> flow (convert_flow globals_flow_0x800001) \<noteq> 1
   \<and> flowValue (convert_flow globals_flow_0x800001) = Finite (- 1000)
   \<and> flowValue (convert_flow globals_flow_1) = Finite (8192001 / 68719476736)
   \<and> flowValue (convert_flow globals_flow_0x800001)
       \<noteq> fneg (flowValue (convert_flow globals_flow_1))"
  by code_simp

text \<open>
  C8: with \<open>range = 0\<close> the conversion gives \<open>flowValue = 0\<close> for every \<open>flow\<close>, and
  the divisor of its only division is the constant \<open>0x7FFFFF\<close>.
\<close>

theorem zero_range_gives_zero_flow:
  assumes "range_var s = 0"
  shows "flowValue (convert_flow s) = Finite 0 \<and> float_of_int 0x7FFFFF = Finite 8388607"
proof (cases "bit (flow s) 23")
  case True
  then show ?thesis
    using assms by (simp add: convert_flow_negative)
next
  case False
  have "\<bar>sint (flow s)\<bar> \<le> 2 ^ 31"
    using sint_ge [of "flow s"] sint_lt [of "flow s"] by simp
  then obtain r where "float_of_int (sint (flow s)) = Finite r"
    using float_of_int_finite by blast
  then show ?thesis
    using assms False by (simp add: convert_flow_positive)
qed

theorem zero_range_gives_zero_flow_witness:
  "range_var globals_range_0 = 0 \<and> flow globals_range_0 = 0x800001
   \<and> flowValue (convert_flow globals_range_0) = Finite 0
   \<and> range_var (globals_range_0\<lparr>flow := 0x7FFFFF\<rparr>) = 0
   \<and> flowValue (convert_flow (globals_range_0\<lparr>flow := 0x7FFFFF\<rparr>)) = Finite 0"
proof -
  have a: "range_var globals_range_0 = 0" "flow globals_range_0 = 0x800001"
    "range_var (globals_range_0\<lparr>flow := 0x7FFFFF\<rparr>) = 0"
    by (simp_all add: globals_range_0_def initial_globals_def)
  show ?thesis
    using a zero_range_gives_zero_flow [OF a(1)] zero_range_gives_zero_flow [OF a(3)] by simp
qed

lemma flow_value_0x010000:
  "fdiv (fmul (float_of_int (sint (0x010000 :: 32 word))) (float_of_int (sint (1000 :: 32 word))))
        (Finite 8388607) = Finite (8192001 / 1048576)"
  by code_simp

lemma loop_flow_0x010000:
  assumes "length b = sizeof_tI2CTable" and "globals_ok s" and "chks_loop b 0 0 = 0"
    and "take 3 b = [0x00, 0x00, 0x01]" and "take 3 (drop 7 b) = [0xE8, 0x03, 0x00]"
  shows "flow (rebuild_vars (s\<lparr>I2CFrame := b\<rparr>)) = 0x010000
       \<and> \<not> bit (0x010000 :: 32 word) 23
       \<and> map_option flow (loop s b) = Some 0x010000
       \<and> map_option range_var (loop s b) = Some 1000
       \<and> map_option flowValue (loop s b) = Some (Finite (8192001 / 1048576))
       \<and> flt (Finite 0) (Finite (8192001 / 1048576))"
proof -
  let ?s = "s\<lparr>I2CFrame := b\<rparr>"
  from assms(2) have len: "length (I2CFrame s) = sizeof_tI2CTable"
    by (simp add: globals_ok_def)
  have ok: "globals_ok ?s" using assms(1,2) by (simp add: globals_ok_def)
  have c: "chks_loop (I2CFrame ?s) 0 0 = 0" using assms(3) by simp
  have len': "length (I2CFrame ?s) = sizeof_tI2CTable" using assms(1) by simp
  note vf = rebuild_flow [OF len'] and vr = rebuild_range [OF len']
  have b3: "take 3 b = [b ! 0, b ! 1, b ! 2]"
    using assms(1) by (intro take3) (simp add: sizeof_tI2CTable_def)
  have b7: "take 3 (drop 7 b) = [b ! 7, b ! (7 + 1), b ! (7 + 2)]"
    using assms(1) by (intro take3_drop) (simp add: sizeof_tI2CTable_def)
  from b3 assms(4) have f: "b ! 0 = 0" "b ! 1 = 0" "b ! 2 = 1" by simp_all
  from b7 assms(5) have r: "b ! 7 = 0xE8" "b ! 8 = 0x03" "b ! 9 = 0" by simp_all
  have "unat (flow (rebuild_vars ?s)) = unat (0x010000 :: 32 word)"
    using vf f by simp
  then have fl: "flow (rebuild_vars ?s) = 0x010000" by (simp only: word_unat_eq_iff)
  have "unat (range_var (rebuild_vars ?s)) = unat (1000 :: 32 word)"
    using vr r by simp
  then have ra: "range_var (rebuild_vars ?s) = 1000" by (simp only: word_unat_eq_iff)
  have nb: "\<not> bit (0x010000 :: 32 word) 23" by simp
  have nb': "\<not> bit (flow (rebuild_vars ?s)) 23" unfolding fl by (rule nb)
  have p: "process_frame ?s = apply_filter (convert_flow (rebuild_vars ?s))"
    using c by (simp add: process_frame_def)
  have l: "loop s b = Some ((process_frame ?s)
                              \<lparr>loopCounter := loopCounter (process_frame ?s) + 1\<rparr>)"
    by (rule loop_full_frame [OF assms(1) len])
  have "flowValue (convert_flow (rebuild_vars ?s)) = Finite (8192001 / 1048576)"
    unfolding convert_flow_positive(2) [OF nb'] fl ra by (rule flow_value_0x010000)
  then show ?thesis
    using fl nb ra convert_flow_positive(1) [OF nb']
    by (simp add: l p apply_filter_fields convert_flow_counters)
qed

text \<open>
  C9, in the form that holds: for a valid frame with the \<open>flow\<close> bytes \<open>0x00, 0x00, 0x01\<close> and the
  \<open>range\<close> bytes \<open>0xE8, 0x03, 0x00\<close>, \<open>loop\<close> decodes \<open>flow = 0x010000\<close> and
  \<open>range = 1000\<close>. Bit 23 of \<open>0x010000\<close> is clear, so nothing is negated, \<open>flow\<close>
  stays \<open>0x010000\<close>, and \<open>flowValue\<close> is the positive single-precision value of
  \<open>65536 * 1000 / 0x7FFFFF\<close>, which is \<open>8192001 / 2^20\<close> (about 7.8125).
\<close>

theorem end_to_end_flow_0x010000:
  assumes "length b = sizeof_tI2CTable" and "globals_ok s" and "chks_loop b 0 0 = 0"
    and "take 3 b = [0x00, 0x00, 0x01]" and "take 3 (drop 7 b) = [0xE8, 0x03, 0x00]"
  shows "flow (rebuild_vars (s\<lparr>I2CFrame := b\<rparr>)) = 0x010000
       \<and> \<not> bit (0x010000 :: 32 word) 23
       \<and> map_option flow (loop s b) = Some 0x010000
       \<and> map_option range_var (loop s b) = Some 1000
       \<and> map_option flowValue (loop s b) = Some (Finite (8192001 / 1048576))
       \<and> flt (Finite 0) (Finite (8192001 / 1048576))"
  using assms by (rule loop_flow_0x010000)

theorem end_to_end_flow_0x010000_witness:
  "length frame_flow_0x010000 = sizeof_tI2CTable \<and> globals_ok initial_globals
   \<and> chks_loop frame_flow_0x010000 0 0 = 0
   \<and> take 3 frame_flow_0x010000 = [0x00, 0x00, 0x01]
   \<and> take 3 (drop 7 frame_flow_0x010000) = [0xE8, 0x03, 0x00]
   \<and> map_option flow (loop initial_globals frame_flow_0x010000) = Some 0x010000
   \<and> map_option range_var (loop initial_globals frame_flow_0x010000) = Some 1000
   \<and> map_option flowValue (loop initial_globals frame_flow_0x010000)
       = Some (Finite (8192001 / 1048576))"
proof -
  have a: "length frame_flow_0x010000 = sizeof_tI2CTable" "globals_ok initial_globals"
    "chks_loop frame_flow_0x010000 0 0 = 0"
    "take 3 frame_flow_0x010000 = [0x00, 0x00, 0x01]"
    "take 3 (drop 7 frame_flow_0x010000) = [0xE8, 0x03, 0x00]"
    by code_simp+
  from end_to_end_flow_0x010000 [OF a] a show ?thesis by blast
qed

theorem flow_0x010000_sign_counterexample:
  "sum_list (map unat frame_flow_0x010000) mod 256 = 0
   \<and> take 3 frame_flow_0x010000 = [0x00, 0x00, 0x01]
   \<and> take 3 (drop 7 frame_flow_0x010000) = [0xE8, 0x03, 0x00]
   \<and> flow (rebuild_vars (initial_globals\<lparr>I2CFrame := frame_flow_0x010000\<rparr>)) = 0x010000
   \<and> \<not> bit (0x010000 :: 32 word) 23
   \<and> (0x010000 :: 32 word) AND 0x800000 = 0
   \<and> map_option flow (loop initial_globals frame_flow_0x010000) = Some 0x010000
   \<and> map_option flow (loop initial_globals frame_flow_0x010000) \<noteq> Some 0x7F0000
   \<and> map_option flowValue (loop initial_globals frame_flow_0x010000)
       = Some (Finite (8192001 / 1048576))
   \<and> \<not> flt (Finite (8192001 / 1048576)) (Finite 0)"
proof -
  have a: "length frame_flow_0x010000 = sizeof_tI2CTable" "globals_ok initial_globals"
    "chks_loop frame_flow_0x010000 0 0 = 0"
    "take 3 frame_flow_0x010000 = [0x00, 0x00, 0x01]"
    "take 3 (drop 7 frame_flow_0x010000) = [0xE8, 0x03, 0x00]"
    by code_simp+
  have b: "sum_list (map unat frame_flow_0x010000) mod 256 = 0"
    "(0x010000 :: 32 word) AND 0x800000 = 0" "(0x010000 :: 32 word) \<noteq> 0x7F0000"
    "\<not> flt (Finite (8192001 / 1048576)) (Finite 0)"
    by code_simp+
  note h = loop_flow_0x010000 [OF a]
  from h have e: "map_option flow (loop initial_globals frame_flow_0x010000) = Some 0x010000"
    by blast
  have ne: "map_option flow (loop initial_globals frame_flow_0x010000) \<noteq> Some 0x7F0000"
    unfolding e using b(3) by simp
  from h a b ne show ?thesis by blast
qed

section \<open>The loops of reset and filter\<close>

lemma reset_loop_eq:
  "i \<le> n \<Longrightarrow> n \<le> length fd \<Longrightarrow>
   reset_loop fd n v i = take i fd @ replicate (n - i) v @ drop n fd"
proof (induction fd n v i rule: reset_loop.induct)
  case (1 fd n v i)
  show ?case
  proof (cases "i < n")
    case True
    then have i: "i < length fd" using "1.prems" by simp
    have "reset_loop fd n v i = reset_loop (fd[i := v]) n v (i + 1)"
      using True by (subst reset_loop.simps) simp
    also have "\<dots> = take (i + 1) (fd[i := v]) @ replicate (n - (i + 1)) v @ drop n (fd[i := v])"
      using True "1.prems" by (intro "1.IH") simp_all
    also have "take (i + 1) (fd[i := v]) = take i fd @ [v]"
      using i by (simp add: take_Suc_conv_app_nth)
    also have "drop n (fd[i := v]) = drop n fd" using True by simp
    also have "(take i fd @ [v]) @ replicate (n - (i + 1)) v @ drop n fd
               = take i fd @ replicate (n - i) v @ drop n fd"
      using True by (simp add: replicate_Suc [symmetric] Suc_diff_Suc del: replicate_Suc)
    finally show ?thesis .
  next
    case False
    then have "i = n" using "1.prems" by simp
    then show ?thesis by (subst reset_loop.simps) simp
  qed
qed

lemma reset_filterData:
  assumes "cEMAFilter_ok this"
  shows "filterData (cEMAFilter_reset this p)
         = replicate (unat (order this)) p @ drop (unat (order this)) (filterData this)"
  using assms reset_loop_eq [of 0 "unat (order this)" "filterData this" p]
  by (simp add: cEMAFilter_reset_def cEMAFilter_ok_def)

lemma reset_eq:
  assumes "cEMAFilter_ok this"
  shows "cEMAFilter_reset this p
         = this\<lparr>filterData := replicate (unat (order this)) p
                                  @ drop (unat (order this)) (filterData this)\<rparr>"
  using assms reset_loop_eq [of 0 "unat (order this)" "filterData this" p]
  by (simp add: cEMAFilter_reset_def cEMAFilter_ok_def)

lemma reset_other_members:
  "firstSample (cEMAFilter_reset this p) = firstSample this"
  "order (cEMAFilter_reset this p) = order this"
  "alpha (cEMAFilter_reset this p) = alpha this"
  "filtValue (cEMAFilter_reset this p) = filtValue this"
  by (simp_all add: cEMAFilter_reset_def)

lemma reset_ok: "cEMAFilter_ok this \<Longrightarrow> cEMAFilter_ok (cEMAFilter_reset this p)"
  by (simp add: cEMAFilter_ok_def reset_filterData reset_other_members)

lemma reset_reset:
  assumes "cEMAFilter_ok this"
  shows "cEMAFilter_reset (cEMAFilter_reset this p) v = cEMAFilter_reset this v"
proof -
  have "filterData (cEMAFilter_reset (cEMAFilter_reset this p) v)
        = filterData (cEMAFilter_reset this v)"
    using assms
    by (simp add: reset_filterData [OF reset_ok] reset_filterData reset_other_members
        cEMAFilter_ok_def)
  then show ?thesis by (simp add: cEMAFilter_reset_def)
qed

lemma filter_loop_fixed:
  "fadd (fmul a v) (fmul (fsub (float_of_int 1) a) v) = v \<Longrightarrow>
   \<forall>j. i \<le> j \<and> j < n \<longrightarrow> fd ! j = v \<Longrightarrow> filter_loop fd n a v i = (fd, v)"
proof (induction fd n a v i rule: filter_loop.induct)
  case (1 fd n a v i)
  note blend = "1.prems"(1) and stages = "1.prems"(2)
  show ?case
  proof (cases "i < n")
    case True
    let ?x = "fadd (fmul a (fd ! i)) (fmul (fsub (float_of_int 1) a) v)"
    have fi: "fd ! i = v" using True stages by simp
    have x: "?x = v" unfolding fi by (rule blend)
    have u: "fd[i := ?x] = fd" unfolding x using fi by (metis list_update_id)
    have "filter_loop fd n a v i = filter_loop (fd[i := ?x]) n a ?x (i + 1)"
      using True by (subst filter_loop.simps) (simp add: Let_def)
    also have "\<dots> = (fd[i := ?x], ?x)"
    proof (rule "1.IH" [OF True refl])
      show "fadd (fmul a ?x) (fmul (fsub (float_of_int 1) a) ?x) = ?x"
        unfolding x by (rule blend)
      show "\<forall>j. i + 1 \<le> j \<and> j < n \<longrightarrow> fd[i := ?x] ! j = ?x"
        unfolding u unfolding x using stages by simp
    qed
    finally show ?thesis unfolding u unfolding x .
  next
    case False
    then show ?thesis by (subst filter_loop.simps) simp
  qed
qed

lemma filter_loop_below:
  "j < i \<Longrightarrow> fst (filter_loop fd n a v i) ! j = fd ! j"
proof (induction fd n a v i rule: filter_loop.induct)
  case (1 fd n a v i)
  show ?case
  proof (cases "i < n")
    case True
    let ?x = "fadd (fmul a (fd ! i)) (fmul (fsub (float_of_int 1) a) v)"
    have "filter_loop fd n a v i = filter_loop (fd[i := ?x]) n a ?x (i + 1)"
      using True by (subst filter_loop.simps) (simp add: Let_def)
    moreover have "fst (filter_loop (fd[i := ?x]) n a ?x (i + 1)) ! j = (fd[i := ?x]) ! j"
      using True "1.prems" by (intro "1.IH") simp_all
    ultimately show ?thesis using "1.prems" by simp
  next
    case False
    then show ?thesis by (subst filter_loop.simps) simp
  qed
qed

lemma filter_loop_first_stage:
  assumes "0 < n" and "0 < length fd"
  shows "fst (filter_loop fd n a v 0) ! 0
         = fadd (fmul a (fd ! 0)) (fmul (fsub (float_of_int 1) a) v)"
proof -
  let ?x = "fadd (fmul a (fd ! 0)) (fmul (fsub (float_of_int 1) a) v)"
  have "filter_loop fd n a v 0 = filter_loop (fd[0 := ?x]) n a ?x (0 + 1)"
    using assms(1) by (subst filter_loop.simps) (simp add: Let_def)
  then show ?thesis using assms(2) by (simp add: filter_loop_below)
qed

lemma default_ok: "cEMAFilter_ok (cEMAFilter_default zero_cEMAFilter)"
  by (simp add: cEMAFilter_ok_def cEMAFilter_default_def zero_cEMAFilter_def
      EMA_DEFAULT_ORDER_def MAX_EMA_ORDER_def)

lemma config_ok: "cEMAFilter_ok this \<Longrightarrow> cEMAFilter_ok (cEMAFilter_config this a n)"
  by (simp add: cEMAFilter_ok_def cEMAFilter_config_def)

lemma blend_half:
  assumes "round32 x = Finite x" and "round32 (x / 2) = Finite (x / 2)"
  shows "fadd (fmul (Finite (1 / 2)) (Finite x))
              (fmul (fsub (float_of_int 1) (Finite (1 / 2))) (Finite x)) = Finite x"
proof -
  have h: "round32 (1 / 2) = Finite (1 / 2)"
    using EMA_DEFAULT_ALPHA_half by (simp add: EMA_DEFAULT_ALPHA_def)
  have "fsub (float_of_int 1) (Finite (1 / 2)) = Finite (1 / 2)"
    using h by (simp add: fsub_def)
  then show ?thesis using assms by simp
qed

section \<open>The first sample\<close>

lemma first_filter:
  assumes "cEMAFilter_ok this" and "firstSample this"
    and "fadd (fmul (alpha this) v) (fmul (fsub (float_of_int 1) (alpha this)) v) = v"
  shows "cEMAFilter_filter this v
         = (this\<lparr>filterData := replicate (unat (order this)) v
                                  @ drop (unat (order this)) (filterData this),
                  filtValue := v, firstSample := False\<rparr>, v)"
proof -
  let ?n = "unat (order this)"
  let ?fd = "replicate ?n v @ drop ?n (filterData this)"
  have "\<forall>j. 0 \<le> j \<and> j < ?n \<longrightarrow> ?fd ! j = v" by (simp add: nth_append)
  with assms(3) have "filter_loop ?fd ?n (alpha this) v 0 = (?fd, v)"
    by (rule filter_loop_fixed)
  then show ?thesis
    using assms(2)
    by (simp add: cEMAFilter_filter_def Let_def reset_eq [OF assms(1)])
qed

text \<open>
  C5, in the form that holds: on the first call after construction \<open>filter\<close> returns exactly its
  input \<open>v\<close>, for every order that \<open>config\<close> accepts, whenever one stage's blend
  \<open>alpha*v + (1-alpha)*v\<close> evaluates to \<open>v\<close> in single precision: every stage is
  seeded with \<open>v\<close> and keeps it.
\<close>

theorem first_sample_returns_input:
  assumes "cEMAFilter_ok this" and "firstSample this"
    and "fadd (fmul (alpha this) v) (fmul (fsub (float_of_int 1) (alpha this)) v) = v"
  shows "snd (cEMAFilter_filter this v) = v
       \<and> cEMAFilter_getValue (fst (cEMAFilter_filter this v)) = v
       \<and> filterData (fst (cEMAFilter_filter this v))
           = replicate (unat (order this)) v @ drop (unat (order this)) (filterData this)
       \<and> \<not> firstSample (fst (cEMAFilter_filter this v))"
  by (simp add: first_filter [OF assms] cEMAFilter_getValue_def)

theorem first_sample_returns_input_witness:
  "cEMAFilter_ok (cEMAFilter_default zero_cEMAFilter)
   \<and> firstSample (cEMAFilter_default zero_cEMAFilter)
   \<and> fadd (fmul (alpha (cEMAFilter_default zero_cEMAFilter)) (Finite 3))
           (fmul (fsub (float_of_int 1) (alpha (cEMAFilter_default zero_cEMAFilter)))
                 (Finite 3)) = Finite 3
   \<and> snd (cEMAFilter_filter (cEMAFilter_default zero_cEMAFilter) (Finite 3)) = Finite 3
   \<and> filterData (fst (cEMAFilter_filter (cEMAFilter_default zero_cEMAFilter) (Finite 3)))
       = replicate 5 (Finite 3) @ replicate 5 (Finite 0)"
proof -
  have a: "cEMAFilter_ok (cEMAFilter_default zero_cEMAFilter)"
    "firstSample (cEMAFilter_default zero_cEMAFilter)"
    "fadd (fmul (alpha (cEMAFilter_default zero_cEMAFilter)) (Finite 3))
          (fmul (fsub (float_of_int 1) (alpha (cEMAFilter_default zero_cEMAFilter)))
                (Finite 3)) = Finite 3"
    by code_simp+
  have b: "replicate (unat (order (cEMAFilter_default zero_cEMAFilter))) (Finite 3)
           @ drop (unat (order (cEMAFilter_default zero_cEMAFilter)))
               (filterData (cEMAFilter_default zero_cEMAFilter))
           = replicate 5 (Finite 3) @ replicate 5 (Finite 0)"
    by code_simp
  from first_sample_returns_input [OF a] a b show ?thesis by simp
qed

theorem first_sample_rounding_counterexample:
  "config_in_range alpha_tenth 1 \<and> is_float32 alpha_tenth \<and> is_float32 (Finite 3)
   \<and> alpha_tenth = Finite (13421773 / 134217728)
   \<and> cEMAFilter_ok filter_tenth \<and> firstSample filter_tenth
   \<and> alpha filter_tenth = alpha_tenth \<and> order filter_tenth = 1
   \<and> snd (cEMAFilter_filter filter_tenth (Finite 3)) = Finite (12582911 / 4194304)
   \<and> snd (cEMAFilter_filter filter_tenth (Finite 3)) \<noteq> Finite 3"
  by code_simp

section \<open>reset\<close>

lemma filter_after_reset_first:
  assumes "cEMAFilter_ok this" and "firstSample this"
  shows "cEMAFilter_filter (cEMAFilter_reset this p) v = cEMAFilter_filter this v"
proof -
  have "(cEMAFilter_reset (cEMAFilter_reset this p) v)\<lparr>firstSample := False\<rparr>
        = (cEMAFilter_reset this v)\<lparr>firstSample := False\<rparr>"
    by (simp only: reset_reset [OF assms(1)])
  then show ?thesis
    using assms(2) by (simp add: cEMAFilter_filter_def reset_other_members)
qed

lemma filter_after_reset_running:
  assumes "cEMAFilter_ok this" and "\<not> firstSample this"
  shows "filterData (fst (cEMAFilter_filter (cEMAFilter_reset this p) v)) ! 0
         = fadd (fmul (alpha this) p) (fmul (fsub (float_of_int 1) (alpha this)) v)"
proof -
  let ?n = "unat (order this)"
  let ?fd = "replicate ?n p @ drop ?n (filterData this)"
  from assms(1) have n: "0 < ?n" and l: "0 < length ?fd"
    by (simp_all add: cEMAFilter_ok_def)
  have "?fd ! 0 = p" using n by (simp add: nth_append)
  then have "fst (filter_loop ?fd ?n (alpha this) v 0) ! 0
             = fadd (fmul (alpha this) p) (fmul (fsub (float_of_int 1) (alpha this)) v)"
    using filter_loop_first_stage [OF n l, of "alpha this" v] by simp
  then show ?thesis
    using assms(2)
    by (simp add: cEMAFilter_filter_def Let_def reset_eq [OF assms(1)] split_beta)
qed

text \<open>
  C7, in the form that holds: \<open>reset(p)\<close> sets the first \<open>order\<close> stage accumulators to \<open>p\<close> and
  changes nothing else, \<open>firstSample\<close> included. So the next \<open>filter\<close> call re-seeds
  the stages from its input only if no sample has been filtered since construction
  (then the preset is lost); otherwise it runs the cascade on the preset stages, the
  first of which becomes \<open>alpha*p + (1-alpha)*input\<close>.
\<close>

theorem reset_presets_stages_keeps_flag:
  assumes "cEMAFilter_ok this"
  shows "filterData (cEMAFilter_reset this p)
           = replicate (unat (order this)) p @ drop (unat (order this)) (filterData this)
       \<and> firstSample (cEMAFilter_reset this p) = firstSample this
       \<and> order (cEMAFilter_reset this p) = order this
       \<and> alpha (cEMAFilter_reset this p) = alpha this
       \<and> filtValue (cEMAFilter_reset this p) = filtValue this
       \<and> (firstSample this \<longrightarrow>
            cEMAFilter_filter (cEMAFilter_reset this p) v = cEMAFilter_filter this v)
       \<and> (\<not> firstSample this \<longrightarrow>
            filterData (fst (cEMAFilter_filter (cEMAFilter_reset this p) v)) ! 0
            = fadd (fmul (alpha this) p) (fmul (fsub (float_of_int 1) (alpha this)) v))"
  using reset_filterData [OF assms, of p] filter_after_reset_first [OF assms, of p v]
    filter_after_reset_running [OF assms, of p v]
  by (simp add: reset_other_members)

theorem reset_presets_stages_keeps_flag_witness:
  "cEMAFilter_ok filter_after_one_sample \<and> \<not> firstSample filter_after_one_sample
   \<and> filterData (cEMAFilter_reset filter_after_one_sample (Finite 0)) = replicate 10 (Finite 0)
   \<and> \<not> firstSample (cEMAFilter_reset filter_after_one_sample (Finite 0))
   \<and> filterData (fst (cEMAFilter_filter (cEMAFilter_reset filter_after_one_sample (Finite 0))
                         (Finite 10))) ! 0 = Finite 5
   \<and> cEMAFilter_ok (cEMAFilter_default zero_cEMAFilter)
   \<and> firstSample (cEMAFilter_default zero_cEMAFilter)
   \<and> cEMAFilter_filter (cEMAFilter_reset (cEMAFilter_default zero_cEMAFilter) (Finite 7))
        (Finite 10)
       = cEMAFilter_filter (cEMAFilter_default zero_cEMAFilter) (Finite 10)"
proof -
  have a: "cEMAFilter_ok filter_after_one_sample" "\<not> firstSample filter_after_one_sample"
    "replicate (unat (order filter_after_one_sample)) (Finite 0)
     @ drop (unat (order filter_after_one_sample)) (filterData filter_after_one_sample)
     = replicate 10 (Finite 0)"
    "fadd (fmul (alpha filter_after_one_sample) (Finite 0))
          (fmul (fsub (float_of_int 1) (alpha filter_after_one_sample)) (Finite 10)) = Finite 5"
    by code_simp+
  have b: "cEMAFilter_ok (cEMAFilter_default zero_cEMAFilter)"
    "firstSample (cEMAFilter_default zero_cEMAFilter)"
    by code_simp+
  from reset_presets_stages_keeps_flag [OF a(1), of "Finite 0" "Finite 10"]
    reset_presets_stages_keeps_flag [OF b(1), of "Finite 7" "Finite 10"] a b
  show ?thesis by simp
qed

theorem reset_does_not_reseed_counterexample:
  "cEMAFilter_ok filter_after_one_sample
   \<and> \<not> firstSample (cEMAFilter_reset filter_after_one_sample (Finite 0))
   \<and> snd (cEMAFilter_filter (cEMAFilter_reset filter_after_one_sample (Finite 0)) (Finite 10))
       = Finite (5 / 16)
   \<and> snd (cEMAFilter_filter (cEMAFilter_reset filter_after_one_sample (Finite 0)) (Finite 10))
       \<noteq> Finite 10
   \<and> filterData (fst (cEMAFilter_filter (cEMAFilter_reset filter_after_one_sample (Finite 0))
                         (Finite 10)))
       = [Finite 5, Finite (5 / 2), Finite (5 / 4), Finite (5 / 8), Finite (5 / 16),
          Finite 0, Finite 0, Finite 0, Finite 0, Finite 0]"
  by code_simp

section \<open>The sizes are kept\<close>

lemma default_constructor_ok:
  "length (filterData mem) = MAX_EMA_ORDER \<Longrightarrow> cEMAFilter_ok (cEMAFilter_default mem)"
  by (simp add: cEMAFilter_ok_def cEMAFilter_default_def EMA_DEFAULT_ORDER_def MAX_EMA_ORDER_def)

lemma param_constructor_ok:
  "length (filterData mem) = MAX_EMA_ORDER \<Longrightarrow> cEMAFilter_ok (cEMAFilter_param mem a n)"
  unfolding cEMAFilter_param_def Let_def cEMAFilter_config_def config_test
  using default_in_range
  by (simp add: cEMAFilter_ok_def EMA_DEFAULT_ORDER_def MAX_EMA_ORDER_def)

lemma filter_loop_length: "length (fst (filter_loop fd n a v i)) = length fd"
proof (induction fd n a v i rule: filter_loop.induct)
  case (1 fd n a v i)
  show ?case
  proof (cases "i < n")
    case True
    let ?x = "fadd (fmul a (fd ! i)) (fmul (fsub (float_of_int 1) a) v)"
    have "filter_loop fd n a v i = filter_loop (fd[i := ?x]) n a ?x (i + 1)"
      using True by (subst filter_loop.simps) (simp add: Let_def)
    moreover have "length (fst (filter_loop (fd[i := ?x]) n a ?x (i + 1))) = length (fd[i := ?x])"
      using True by (intro "1.IH") simp_all
    ultimately show ?thesis by simp
  next
    case False
    then show ?thesis by (subst filter_loop.simps) simp
  qed
qed

lemma filter_ok:
  assumes "cEMAFilter_ok this"
  shows "cEMAFilter_ok (fst (cEMAFilter_filter this v))"
proof -
  let ?this1 = "if firstSample this then (cEMAFilter_reset this v)\<lparr>firstSample := False\<rparr>
                else this"
  have o: "order ?this1 = order this" by (simp add: reset_other_members)
  have l: "length (filterData ?this1) = length (filterData this)"
    using reset_ok [OF assms, of v] assms by (simp add: cEMAFilter_ok_def)
  have "fst (cEMAFilter_filter this v)
        = ?this1\<lparr>filterData := fst (filter_loop (filterData ?this1) (unat (order ?this1))
                                          (alpha ?this1) v 0),
                   filtValue := snd (filter_loop (filterData ?this1) (unat (order ?this1))
                                          (alpha ?this1) v 0)\<rparr>"
    by (simp add: cEMAFilter_filter_def Let_def split_beta)
  then show ?thesis
    using assms o l by (simp add: cEMAFilter_ok_def filter_loop_length)
qed

lemma initial_globals_ok: "globals_ok initial_globals"
  by (simp add: globals_ok_def initial_globals_def default_ok sizeof_tI2CTable_def)

lemma process_frame_ok:
  assumes "globals_ok s"
  shows "globals_ok (process_frame s)"
proof -
  from assms have len: "length (I2CFrame s) = 32" and f: "cEMAFilter_ok (FlowFilter s)"
    by (simp_all add: globals_ok_def sizeof_tI2CTable_def)
  have r: "globals_ok (rebuild_vars s)"
    using assms len
    by (simp add: globals_ok_def rebuild_vars_def RebuildVarFromBuffer_def memcpy_def
        memset_def I2CTable_serialNumber_def I2CTable_version_def sizeof_tI2CTable_def)
  have "globals_ok (apply_filter (convert_flow (rebuild_vars s)))"
    using r filter_ok [of "FlowFilter (rebuild_vars s)" "flowValue (convert_flow (rebuild_vars s))"]
    by (simp add: globals_ok_def apply_filter_def convert_flow_counters)
  then show ?thesis using assms by (simp add: process_frame_def Let_def globals_ok_def)
qed

lemma loop_returns_and_keeps_sizes:
  assumes "globals_ok s" and "length wire \<le> sizeof_tI2CTable"
  shows "\<exists>s'. loop s wire = Some s' \<and> globals_ok s'"
proof (cases "length wire = sizeof_tI2CTable")
  case True
  from assms(1) have len: "length (I2CFrame s) = sizeof_tI2CTable"
    by (simp add: globals_ok_def)
  have "globals_ok (s\<lparr>I2CFrame := wire\<rparr>)" using assms(1) True by (simp add: globals_ok_def)
  then have "globals_ok (process_frame (s\<lparr>I2CFrame := wire\<rparr>))" by (rule process_frame_ok)
  then show ?thesis
    by (simp add: loop_full_frame [OF True len] globals_ok_def)
next
  case False
  with assms(2) have short: "length wire < sizeof_tI2CTable" by simp
  from assms(1) have len: "length (I2CFrame s) = sizeof_tI2CTable"
    by (simp add: globals_ok_def)
  show ?thesis
    using assms(1) short
    by (simp add: loop_def masterRead_short [OF short len] globals_ok_def)
qed

end
